theory Spec2Isabelle
  imports Main "HOL-Library.Word"
begin

text \<open>
  A shallow embedding of the relay server of \<open>server.go\<close> and of the operator console
  of \<open>main.go\<close>. Every operation is a function from the state it starts in to the state
  it leaves, as the operation runs when no other task interferes; the interleaving of
  tasks is not modelled. The mutexes of the server and of the rooms only keep other tasks
  out and are left out; the mutex of a session is part of the state.
\<close>

section \<open>Machine integers, time and texts\<close>

text \<open>
  Go's \<open>uint64\<close> is a 64-bit word: \<open>+\<close> wraps around. An \<open>int64\<close> is
  represented by its bit pattern, so the conversion \<open>uint64(x)\<close> of an \<open>int64\<close> is
  the identity on the representation. Instants and durations are integers counting
  nanoseconds.
\<close>

type_synonym u64 = "64 word"
type_synonym time = int

definition Second :: int where
  "Second = 1000000000"



definition HEARTBEAT :: int where
  "HEARTBEAT = 30 * Second"

section \<open>The JSON libraries (gjson and sjson) on JSON values\<close>

text \<open>
  The program reads and writes JSON texts only through the libraries gjson and sjson.
  A well-formed JSON text is modelled by the value it denotes, an object by the list of
  its members in the order of the text. A number is an integer literal; literals with a
  fraction or an exponent go through floating point in the libraries and are not
  represented. A Go string that holds a JSON text (or nothing) is a \<open>jtext\<close>:
  \<open>None\<close> is the empty string.
\<close>

datatype json =
  JNull
  | JTrue
  | JFalse
  | JNumber int
  | JString string
  | JArray "json list"
  | JObject "(string \<times> json) list"

type_synonym jtext = "json option"

text \<open>
  A payload read from a connection is arbitrary bytes: either not valid JSON, or a JSON
  text. \<open>gjson.Valid\<close> tells them apart.
\<close>

datatype packet = NotJSON | JSON json

fun gjson_Valid :: "packet \<Rightarrow> bool" where
  "gjson_Valid NotJSON = False"
| "gjson_Valid (JSON j) = True"

fun packet_text :: "packet \<Rightarrow> jtext" where
  "packet_text NotJSON = None"
| "packet_text (JSON j) = Some j"

subsection \<open>Decimal numerals\<close>

text \<open>\<open>strconv.FormatUint(v, 10)\<close> and the text of an integer literal.\<close>

fun digits :: "nat \<Rightarrow> string" where
  "digits n = (if n < 10 then [char_of (48 + n)]
               else digits (n div 10) @ [char_of (48 + n mod 10)])"

declare digits.simps [simp del]

definition itoa :: "int \<Rightarrow> string" where
  "itoa n = (if n < 0 then CHR ''-'' # digits (nat (- n)) else digits (nat n))"

definition isDigit :: "char \<Rightarrow> bool" where
  "isDigit c = (48 \<le> (of_char c :: nat) \<and> (of_char c :: nat) \<le> 57)"

text \<open>
  The digit loop of gjson's \<open>parseUint\<close> and \<open>parseInt\<close>:
  \<open>n = n*10 + uint64(s[i]-'0')\<close>, in wrapping 64-bit arithmetic, failing at the
  first byte that is not a digit.
\<close>

fun parseDigits :: "u64 \<Rightarrow> string \<Rightarrow> u64 option" where
  "parseDigits n [] = Some n"
| "parseDigits n (c # cs) =
     (if isDigit c then parseDigits (n * 10 + of_nat (of_char c - 48)) cs else None)"

definition parseUint :: "string \<Rightarrow> u64 option" where
  "parseUint s = (if s = [] then None else parseDigits 0 s)"

definition parseInt :: "string \<Rightarrow> u64 option" where
  "parseInt s =
     (case s of
        [] \<Rightarrow> None
      | c # r \<Rightarrow>
          if c = CHR ''-'' then (if r = [] then None else map_option uminus (parseDigits 0 r))
          else parseDigits 0 s)"

text \<open>
  \<open>strconv.ParseUint(s, 10, 64)\<close>: decimal digits only, and an error when the value
  does not fit 64 bits.
\<close>

fun decimalValue :: "nat \<Rightarrow> string \<Rightarrow> nat option" where
  "decimalValue n [] = Some n"
| "decimalValue n (c # cs) =
     (if isDigit c then decimalValue (n * 10 + (of_char c - 48)) cs else None)"

definition strconv_ParseUint :: "string \<Rightarrow> u64 option" where
  "strconv_ParseUint s =
     (if s = [] then None
      else case decimalValue 0 s of
             None \<Rightarrow> None
           | Some v \<Rightarrow> if v < 2 ^ 64 then Some (of_nat v) else None)"

subsection \<open>gjson: lookup and conversions\<close>

text \<open>
  \<open>gjson.Get(text, path)\<close> for a path of plain member names separated by dots, given
  as the list of names: the first member of that name at each level. The result is
  \<open>None\<close> when nothing is found (the zero \<open>Result\<close>), as on the empty text.
\<close>

fun member :: "json option \<Rightarrow> string \<Rightarrow> json option" where
  "member (Some (JObject fs)) k = map_of fs k"
| "member _ k = None"

definition gjson_Get :: "jtext \<Rightarrow> string list \<Rightarrow> json option" where
  "gjson_Get t path = foldl member t path"

definition Result_Exists :: "json option \<Rightarrow> bool" where
  "Result_Exists r = (r \<noteq> None)"

text \<open>The text of a value, in compact form (\<open>Result.Raw\<close>).\<close>

definition quote :: "string \<Rightarrow> string" where
  "quote s = CHR 0x22 #
     concat (map (\<lambda>c. if c = CHR 0x22 \<or> c = CHR 0x5C then [CHR 0x5C, c] else [c]) s)
     @ [CHR 0x22]"

fun commas :: "string list \<Rightarrow> string" where
  "commas [] = []"
| "commas [x] = x"
| "commas (x # y # ys) = x @ CHR '','' # commas (y # ys)"

fun render :: "json \<Rightarrow> string" where
  "render JNull = ''null''"
| "render JTrue = ''true''"
| "render JFalse = ''false''"
| "render (JNumber n) = itoa n"
| "render (JString s) = quote s"
| "render (JArray xs) = CHR ''['' # commas (map render xs) @ '']''"
| "render (JObject fs) =
     CHR ''{'' # commas (map (\<lambda>kv. quote (fst kv) @ CHR '':'' # render (snd kv)) fs) @ ''}''"

definition Result_Raw :: "json option \<Rightarrow> jtext" where
  "Result_Raw r = r"

text \<open>\<open>Result.String()\<close>.\<close>

fun Result_String :: "json option \<Rightarrow> string" where
  "Result_String None = []"
| "Result_String (Some JNull) = []"
| "Result_String (Some JTrue) = ''true''"
| "Result_String (Some JFalse) = ''false''"
| "Result_String (Some (JNumber n)) = itoa n"
| "Result_String (Some (JString s)) = s"
| "Result_String (Some j) = render j"

text \<open>
  The library keeps a number as a \<open>float64\<close> (\<open>Result.Num\<close>) beside its text. For an
  integer literal that is the nearest float, ties to even: the literal itself up to 53
  bits, and otherwise the leading 53 bits rounded. (A literal too large for any float is
  kept as an infinity; it converts below like every value under \<open>- 2 ^ 63\<close>.)
\<close>

fun bitLength :: "nat \<Rightarrow> nat" where
  "bitLength n = (if n = 0 then 0 else Suc (bitLength (n div 2)))"

declare bitLength.simps [simp del]

definition roundFloat64 :: "int \<Rightarrow> int" where
  "roundFloat64 n =
     (let a = nat \<bar>n\<bar>; b = bitLength a
      in if b \<le> 53 then n
         else
           (let e = b - 53; q = a div 2 ^ e; r = a mod 2 ^ e;
                q' = (if 2 * r > 2 ^ e \<or> (2 * r = 2 ^ e \<and> odd q) then q + 1 else q)
            in sgn n * int (q' * 2 ^ e)))"

text \<open>
  Go's conversion of a float to a 64-bit integer, for an integral float below
  \<open>2 ^ 63\<close>. The language leaves the result to the implementation when the value does
  not fit; the model takes what the amd64 compiler produces: the truncated value in two's
  complement, and the pattern \<open>0x8000000000000000\<close> for a float below \<open>- 2 ^ 63\<close>.
  Only negative literals reach it (a literal the digit loop refuses has a minus sign).
\<close>

definition convertFloat :: "int \<Rightarrow> u64" where
  "convertFloat f = (if f < - (2 ^ 63) then 2 ^ 63 else word_of_int f)"

text \<open>
  \<open>Result.Int()\<close>: a number inside the safe integer range of a float is converted
  directly, any other is parsed from its text; a string is parsed, with 0 on failure.
  The last resort of the library, the conversion of the float, is never reached by an
  integer literal (\<open>parseInt\<close> succeeds on its text).
\<close>

fun Result_Int :: "json option \<Rightarrow> u64" where
  "Result_Int (Some JTrue) = 1"
| "Result_Int (Some (JString s)) = (case parseInt s of Some n \<Rightarrow> n | None \<Rightarrow> 0)"
| "Result_Int (Some (JNumber n)) =
     (if - 9007199254740991 \<le> n \<and> n \<le> 9007199254740991 then word_of_int n
      else case parseInt (itoa n) of
             Some i \<Rightarrow> i
           | None \<Rightarrow> convertFloat (roundFloat64 n))"
| "Result_Int _ = 0"

text \<open>
  \<open>Result.Uint()\<close>: a number from 0 to the largest safe integer of a float is converted
  directly, any other is parsed from its text by the digit loop, and a literal the loop
  refuses, which is a negative one, ends in the conversion of the float to \<open>uint64\<close>.
\<close>

fun Result_Uint :: "json option \<Rightarrow> u64" where
  "Result_Uint (Some JTrue) = 1"
| "Result_Uint (Some (JString s)) = (case parseUint s of Some n \<Rightarrow> n | None \<Rightarrow> 0)"
| "Result_Uint (Some (JNumber n)) =
     (if 0 \<le> n \<and> n \<le> 9007199254740991 then word_of_int n
      else case parseUint (itoa n) of
             Some u \<Rightarrow> u
           | None \<Rightarrow> convertFloat (roundFloat64 n))"
| "Result_Uint _ = 0"

subsection \<open>sjson: setting a member\<close>

fun setField :: "string \<Rightarrow> json \<Rightarrow> (string \<times> json) list \<Rightarrow> (string \<times> json) list" where
  "setField k v [] = [(k, v)]"
| "setField k v (f # fs) = (if fst f = k then (k, v) # fs else f # setField k v fs)"

text \<open>
  \<open>sjson.Set(text, key, value)\<close> for a plain member name, the error dropped as the
  program drops it: in an object the first member of that name is replaced, or the member
  is appended; the empty text and a text that is neither object nor array become an object
  with that one member; an array is returned as it is (the call fails).
\<close>

fun sjson_Set :: "jtext \<Rightarrow> string \<Rightarrow> json \<Rightarrow> jtext" where
  "sjson_Set (Some (JObject fs)) k v = Some (JObject (setField k v fs))"
| "sjson_Set (Some (JArray xs)) k v = Some (JArray xs)"
| "sjson_Set _ k v = Some (JObject [(k, v)])"

text \<open>A \<open>uint64\<close> and an \<open>int\<close> are written as decimal literals.\<close>

definition of_uint64 :: "u64 \<Rightarrow> json" where
  "of_uint64 v = JNumber (uint v)"

definition of_int_go :: "nat \<Rightarrow> json" where
  "of_int_go n = JNumber (int n)"

section \<open>The data model\<close>

text \<open>
  The program shares its objects through pointers: the registry's online mapping, a room's
  client mapping and the task of a connection all hold the same \<open>*Client\<close>. The model
  keeps the objects in stores, one list for each struct; a pointer is an index into the
  list, allocation appends, and a mutation through a pointer updates the list in place.
\<close>

type_synonym conn = nat
type_synonym cref = nat
type_synonym rref = nat
type_synonym tref = nat

text \<open>
  Modelled from the spec: the struct \<open>Team\<close> is declared in a file that is not among
  the sources. The spec gives it an identifier string and a mapping from client identity
  to membership.
\<close>

record Team =
  team_id :: string
  team_clients :: "u64 \<rightharpoonup> cref"

text \<open>
  \<open>Client\<close>, with the fields \<open>findOrCreateClient\<close> initialises (the back pointer to
  the one server is left out). \<open>client_conn\<close> is \<open>None\<close> for a nil connection;
  \<open>client_mu\<close> tells whether the session's mutex is held.
\<close>

record Client =
  client_id :: u64
  client_conn :: "conn option"
  client_room :: rref
  client_team :: tref
  client_state :: jtext
  client_lastActivity :: time
  client_mu :: bool

text \<open>
  \<open>Room\<close>: the sources use its fields \<open>id\<close> and \<open>clients\<close>.
  Modelled from the spec: the team mapping and the last-activity timestamp, which the
  spec lists among a room's attributes; the struct is declared in a file that is not among
  the sources.
\<close>

record Room =
  room_id :: string
  room_clients :: "u64 \<rightharpoonup> cref"
  room_teams :: "string \<rightharpoonup> tref"
  room_lastActivity :: time

text \<open>\<open>Server\<close> (the listener and the mutex are left out).\<close>

record Server =
  quietMode :: bool
  onlineClients :: "u64 \<rightharpoonup> cref"
  rooms :: "string \<rightharpoonup> rref"
  gamesCompleted :: u64
  nextClientId :: u64

text \<open>
  Everything an operation can read or change: the server, the three stores, the file
  \<open>stats.json\<close> (\<open>None\<close> when it is missing or unreadable), the payloads written to
  connections and the lines logged.
\<close>

record World =
  server :: Server
  clientObjs :: "Client list"
  roomObjs :: "Room list"
  teamObjs :: "Team list"
  statsFile :: "jtext option"
  sent :: "(conn \<times> jtext) list"
  logged :: "string list"

definition logLine :: "string \<Rightarrow> World \<Rightarrow> World" where
  "logLine msg w = w\<lparr>logged := logged w @ [msg]\<rparr>"

section \<open>Start-up and the persistence snapshot\<close>

definition JSON_TEMPLATE :: jtext where
  "JSON_TEMPLATE = Some (JObject
     [(''gamesComplete'', JNumber 0), (''onlineCount'', JNumber 0),
      (''lastStatsHeartbeat'', JString []), (''nextClientId'', JNumber 0)])"

definition NewServer :: Server where
  "NewServer = \<lparr>quietMode = False, onlineClients = Map.empty, rooms = Map.empty,
     gamesCompleted = 0, nextClientId = 1\<rparr>"

text \<open>The state \<open>main\<close> starts from: the new server, nothing allocated, nothing written.\<close>

definition main_init :: "jtext option \<Rightarrow> World" where
  "main_init file = \<lparr>server = NewServer, clientObjs = [], roomObjs = [], teamObjs = [],
     statsFile = file, sent = [], logged = []\<rparr>"

text \<open>
  \<open>os.ReadFile\<close>: the content and whether there was an error; on an error the content
  is nil, which \<open>string(value)\<close> turns into the empty string.
\<close>

fun os_ReadFile :: "jtext option \<Rightarrow> jtext \<times> bool" where
  "os_ReadFile None = (None, True)"
| "os_ReadFile (Some t) = (t, False)"

definition parseStats :: "World \<Rightarrow> World" where
  "parseStats w =
     (let (val, err) = os_ReadFile (statsFile w);
          w1 = (if err then logLine ''Error reading stats.json file:'' w else w)
      in w1\<lparr>server := (server w1)
           \<lparr>gamesCompleted := Result_Int (gjson_Get val [''gamesComplete'']),
            nextClientId := Result_Int (gjson_Get val [''nextClientId''])\<rparr>\<rparr>)"

text \<open>
  \<open>saveStats\<close>. \<open>stamp\<close> is the text \<open>time.Now()\<close> is written as, \<open>writeOk\<close>
  whether \<open>os.WriteFile\<close> succeeds; a failed write is logged, and the model leaves the
  file as it was.
\<close>

definition saveStats :: "string \<Rightarrow> bool \<Rightarrow> World \<Rightarrow> World" where
  "saveStats stamp writeOk w =
     (let s = server w;
          v1 = sjson_Set JSON_TEMPLATE ''gamesComplete'' (of_uint64 (gamesCompleted s));
          v2 = sjson_Set v1 ''nextClientId'' (of_uint64 (nextClientId s));
          v3 = sjson_Set v2 ''onlineCount'' (of_int_go (card (dom (onlineClients s))));
          v4 = sjson_Set v3 ''lastStatsHeartBeat'' (JString stamp)
      in if writeOk then w\<lparr>statsFile := Some v4\<rparr>
         else logLine ''Error writing json to file: '' w)"

text \<open>One save by a running process followed by the load of a fresh process.\<close>

definition saveThenLoad :: "string \<Rightarrow> World \<Rightarrow> World" where
  "saveThenLoad stamp w = parseStats (main_init (statsFile (saveStats stamp True w)))"

section \<open>The session registry\<close>

subsection \<open>Identity allocation\<close>

text \<open>
  \<open>s.nextClientId++\<close> followed by
  \<open>if s.nextClientId == 0 { s.nextClientId++ }\<close>, as it stands twice in
  \<open>findOrCreateClient\<close>.
\<close>

definition incrementNextClientId :: "u64 \<Rightarrow> u64" where
  "incrementNextClientId n = (if n + 1 = 0 then n + 1 + 1 else n + 1)"

text \<open>
  The loop \<open>for { if _, ok := s.onlineClients[clientId]; !ok { break } ... }\<close>: it
  carries the candidate identity and the counter, and ends at the first candidate that is
  not online. It need not end; not returning is the value \<open>None\<close>.
\<close>

partial_function (option) findOrCreateClient_loop ::
  "(u64 \<rightharpoonup> cref) \<Rightarrow> u64 \<Rightarrow> u64 \<Rightarrow> (u64 \<times> u64) option" where
  "findOrCreateClient_loop online clientId next =
     (if online clientId = None then Some (clientId, next)
      else findOrCreateClient_loop online next (incrementNextClientId next))"

text \<open>
  The first part of \<open>findOrCreateClient\<close>, under the registry lock: the identity the
  handshake is given, and the server with the counter advanced.
\<close>

definition findOrCreateClient_id :: "jtext \<Rightarrow> Server \<Rightarrow> (u64 \<times> Server) option" where
  "findOrCreateClient_id packet s =
     (let clientId = Result_Uint (gjson_Get packet [''clientId'']);
          (clientId, next) =
            (if clientId = 0 then (nextClientId s, incrementNextClientId (nextClientId s))
             else (clientId, nextClientId s))
      in case findOrCreateClient_loop (onlineClients s) clientId next of
           None \<Rightarrow> None
         | Some (clientId, next) \<Rightarrow> Some (clientId, s\<lparr>nextClientId := next\<rparr>))"

subsection \<open>Rooms and teams\<close>

text \<open>
  Modelled from the spec: \<open>NewRoom\<close> is defined in a file that is not among the sources.
  By the spec a room is created with its identifier, no members yet, and its last-activity
  timestamp seeded at creation.
\<close>

definition NewRoom :: "time \<Rightarrow> string \<Rightarrow> u64 \<Rightarrow> jtext \<Rightarrow> Room" where
  "NewRoom now roomId clientId packet =
     \<lparr>room_id = roomId, room_clients = Map.empty, room_teams = Map.empty,
      room_lastActivity = now\<rparr>"

definition findOrCreateRoom :: "time \<Rightarrow> jtext \<Rightarrow> u64 \<Rightarrow> World \<Rightarrow> rref \<times> World" where
  "findOrCreateRoom now packet clientId w =
     (let roomId = Result_String (gjson_Get packet [''roomId''])
      in case rooms (server w) roomId of
           Some room \<Rightarrow> (room, w)
         | None \<Rightarrow>
             (let room = length (roomObjs w)
              in (room, w\<lparr>roomObjs := roomObjs w @ [NewRoom now roomId clientId packet],
                          server := (server w)\<lparr>rooms := (rooms (server w))(roomId \<mapsto> room)\<rparr>\<rparr>)))"

text \<open>
  Modelled from the spec: \<open>Room.findOrCreateTeam\<close> is defined in a file that is not
  among the sources. By the spec it looks the team up by its identifier in the room and
  creates it at the first request; any string, the empty one too, is a team key.
\<close>

definition findOrCreateTeam :: "rref \<Rightarrow> string \<Rightarrow> World \<Rightarrow> tref \<times> World" where
  "findOrCreateTeam room teamId w =
     (case room_teams (roomObjs w ! room) teamId of
        Some team \<Rightarrow> (team, w)
      | None \<Rightarrow>
          (let team = length (teamObjs w)
           in (team, w\<lparr>teamObjs := teamObjs w @ [\<lparr>team_id = teamId, team_clients = Map.empty\<rparr>],
                       roomObjs := (roomObjs w)[room := (roomObjs w ! room)
                         \<lparr>room_teams := (room_teams (roomObjs w ! room))(teamId \<mapsto> team)\<rparr>]\<rparr>)))"


subsection \<open>Resolving the session of a handshake\<close>

text \<open>
  The second part of \<open>findOrCreateClient\<close>, from \<open>room := s.findOrCreateRoom(...)\<close>
  on, for the identity the first part has chosen. \<open>now\<close> is the instant
  \<open>time.Now()\<close> returns. The balanced \<open>Lock\<close>/\<open>Unlock\<close> pairs keep other tasks
  out and leave every mutex as it was.
\<close>

definition findOrCreateClient_session ::
  "time \<Rightarrow> jtext \<Rightarrow> conn \<Rightarrow> u64 \<Rightarrow> World \<Rightarrow> cref \<times> World" where
  "findOrCreateClient_session now packet conn clientId w =
     (let (room, w) = findOrCreateRoom now packet clientId w;
          (team, w) = findOrCreateTeam room
                        (Result_String (gjson_Get packet [''clientState'', ''teamId''])) w;
          clientState = sjson_Set (Result_Raw (gjson_Get packet [''clientState'']))
                          ''clientId'' (of_uint64 clientId);
          (client, w) =
            (case room_clients (roomObjs w ! room) clientId of
               Some client \<Rightarrow>
                 (client, w\<lparr>clientObjs := (clientObjs w)[client := (clientObjs w ! client)
                    \<lparr>client_conn := Some conn, client_team := team,
                     client_state := clientState, client_lastActivity := now\<rparr>]\<rparr>)
             | None \<Rightarrow>
                 (let client = length (clientObjs w)
                  in (client, w\<lparr>clientObjs := clientObjs w @
                        [\<lparr>client_id = clientId, client_conn = Some conn, client_room = room,
                          client_team = team, client_state = clientState,
                          client_lastActivity = now, client_mu = False\<rparr>],
                      roomObjs := (roomObjs w)[room := (roomObjs w ! room)
                        \<lparr>room_clients := (room_clients (roomObjs w ! room))(clientId \<mapsto> client)\<rparr>]\<rparr>)))
      in (client, w\<lparr>server := (server w)
            \<lparr>onlineClients := (onlineClients (server w))(clientId \<mapsto> client)\<rparr>\<rparr>))"

definition findOrCreateClient :: "time \<Rightarrow> jtext \<Rightarrow> conn \<Rightarrow> World \<Rightarrow> (cref \<times> World) option" where
  "findOrCreateClient now packet conn w =
     (case findOrCreateClient_id packet (server w) of
        None \<Rightarrow> None
      | Some (clientId, s) \<Rightarrow>
          Some (findOrCreateClient_session now packet conn clientId (w\<lparr>server := s\<rparr>)))"

text \<open>
  Every pointer held by the registry or by a room points into its store, as every Go
  pointer does.
\<close>

definition wellFormed :: "World \<Rightarrow> bool" where
  "wellFormed w =
     ((\<forall>k r. rooms (server w) k = Some r \<longrightarrow> r < length (roomObjs w)) \<and>
      (\<forall>k c. onlineClients (server w) k = Some c \<longrightarrow> c < length (clientObjs w)) \<and>
      (\<forall>r k c. r < length (roomObjs w) \<longrightarrow> room_clients (roomObjs w ! r) k = Some c
         \<longrightarrow> c < length (clientObjs w)) \<and>
      (\<forall>r k t. r < length (roomObjs w) \<longrightarrow> room_teams (roomObjs w ! r) k = Some t
         \<longrightarrow> t < length (teamObjs w)))"

text \<open>
  A run of handshakes, each on a connection of its own, one after the other: the sessions
  they are given.
\<close>

fun handshakes :: "(time \<times> jtext \<times> conn) list \<Rightarrow> World \<Rightarrow> (cref list \<times> World) option" where
  "handshakes [] w = Some ([], w)"
| "handshakes ((now, packet, conn) # hs) w =
     (case findOrCreateClient now packet conn w of
        None \<Rightarrow> None
      | Some (c, w1) \<Rightarrow>
          (case handshakes hs w1 of
             None \<Rightarrow> None
           | Some (cs, w2) \<Rightarrow> Some (c # cs, w2)))"

subsection \<open>The idle-room sweeper\<close>



section \<open>The task of a connection\<close>

text \<open>
  \<open>handleConnection\<close> calls four methods of \<open>Client\<close> and \<open>Room\<close> that are
  defined in files that are not among the sources. They are parameters of the model:
  what each does to the world when it returns, whatever that is.
\<close>

record Methods =
  handlePacket :: "cref \<Rightarrow> jtext \<Rightarrow> World \<Rightarrow> World"
  broadcastAllClientState :: "rref \<Rightarrow> World \<Rightarrow> World"
  sendRoomState :: "cref \<Rightarrow> World \<Rightarrow> World"
  disconnect :: "cref \<Rightarrow> World \<Rightarrow> World"

text \<open>The reply to a \<open>STATS\<close> packet, built by three calls of \<open>sjson.Set\<close>.\<close>

definition statsReply :: "Server \<Rightarrow> jtext" where
  "statsReply s =
     (let outgoingPacket = sjson_Set (Some (JObject [(''type'', JString ''STATS'')]))
                             ''uniquePlayers'' (of_uint64 (nextClientId s));
          outgoingPacket = sjson_Set outgoingPacket ''gamesCompleted''
                             (of_uint64 (gamesCompleted s))
      in sjson_Set outgoingPacket ''online'' (of_int_go (card (dom (onlineClients s)))))"

text \<open>
  The body of the read loop for one payload. The state of the loop is the local variable
  \<open>client\<close> (\<open>None\<close> for nil) and the world; \<open>conn.Write\<close> appends to
  \<open>sent\<close>. The body has no \<open>break\<close> and no \<open>return\<close>: the loop ends only when
  the scanner has no further payload. The result is \<open>None\<close> when
  \<open>findOrCreateClient\<close> does not return.
\<close>

definition handleConnection_body ::
  "Methods \<Rightarrow> conn \<Rightarrow> time \<times> packet \<Rightarrow> cref option \<times> World \<Rightarrow> (cref option \<times> World) option" where
  "handleConnection_body m conn input st =
     (let (now, packet) = input; (client, w) = st
      in if \<not> gjson_Valid packet then Some (client, logLine ''Invalid JSON packet'' w)
         else
           (let packetTypeWrapped = gjson_Get (packet_text packet) [''type'']
            in if \<not> Result_Exists packetTypeWrapped
               then Some (client, logLine ''Packet missing type'' w)
               else
                 (let packetType = Result_String packetTypeWrapped
                  in if packetType = ''STATS''
                     then Some (client, w\<lparr>sent := sent w @ [(conn, statsReply (server w))]\<rparr>)
                     else
                       (case client of
                          None \<Rightarrow>
                            if packetType \<noteq> ''HANDSHAKE''
                            then Some (client, logLine ''Client must handshake first'' w)
                            else
                              (case findOrCreateClient now (packet_text packet) conn w of
                                 None \<Rightarrow> None
                               | Some (c, w) \<Rightarrow>
                                   (let w = logLine (''Client '' @ digits (unat (client_id (clientObjs w ! c)))
                                                     @ '' Connected'') w;
                                        w = broadcastAllClientState m (client_room (clientObjs w ! c)) w;
                                        w = sendRoomState m c w
                                    in Some (Some c, w)))
                        | Some c \<Rightarrow> Some (client, handlePacket m c (packet_text packet) w)))))"

text \<open>The read loop over the payloads the scanner delivers, each with its instant.\<close>

fun handleConnection_loop ::
  "Methods \<Rightarrow> conn \<Rightarrow> (time \<times> packet) list \<Rightarrow> cref option \<times> World \<Rightarrow> (cref option \<times> World) option" where
  "handleConnection_loop m conn [] st = Some st"
| "handleConnection_loop m conn (input # inputs) st =
     (case handleConnection_body m conn input st of
        None \<Rightarrow> None
      | Some st' \<Rightarrow> handleConnection_loop m conn inputs st')"

text \<open>
  \<open>handleConnection\<close>: the loop from \<open>client = nil\<close>, then, at the end of the stream,
  the disconnect of the session if there is one. Only here is the connection closed.
\<close>

definition handleConnection ::
  "Methods \<Rightarrow> conn \<Rightarrow> (time \<times> packet) list \<Rightarrow> World \<Rightarrow> World option" where
  "handleConnection m conn inputs w =
     (case handleConnection_loop m conn inputs (None, w) of
        None \<Rightarrow> None
      | Some (client, w) \<Rightarrow>
          (case client of
             Some c \<Rightarrow>
               (let w = disconnect m c w;
                    w = broadcastAllClientState m (client_room (clientObjs w ! c)) w
                in Some (logLine (''Client '' @ digits (unat (client_id (clientObjs w ! c)))
                                  @ '' disconnected'') w))
           | None \<Rightarrow> Some (logLine ''Unknown client disconnected.'' w)))"

text \<open>
  The payloads the two checks at the head of the loop reject: not valid JSON, or no
  \<open>type\<close> member.
\<close>

definition rejected :: "packet \<Rightarrow> bool" where
  "rejected packet =
     (\<not> gjson_Valid packet \<or> \<not> Result_Exists (gjson_Get (packet_text packet) [''type'']))"

text \<open>
  A payload with a string-valued \<open>type\<close> member, as the specification requires of
  every payload.
\<close>

fun stringTyped :: "packet \<Rightarrow> bool" where
  "stringTyped NotJSON = False"
| "stringTyped (JSON j) =
     (case gjson_Get (Some j) [''type''] of Some (JString t) \<Rightarrow> True | _ \<Rightarrow> False)"

section \<open>The operator console\<close>

text \<open>
  What ends an operation of the console before its end: the runtime's fatal error
  \<open>sync: unlock of unlocked mutex\<close>, the panic of an index out of range, and waiting
  for a mutex that is held.
\<close>

datatype fault = UnlockOfUnlockedMutex | IndexOutOfRange | Blocked

text \<open>The tasks started by a \<open>go\<close> statement.\<close>

datatype task = SendDisable cref string | SendServerMessage cref string

text \<open>\<open>client.mu.Lock()\<close> and \<open>client.mu.Unlock()\<close> on the session at \<open>c\<close>.\<close>

definition mu_Lock :: "cref \<Rightarrow> World \<Rightarrow> fault + World" where
  "mu_Lock c w =
     (if client_mu (clientObjs w ! c) then Inl Blocked
      else Inr (w\<lparr>clientObjs := (clientObjs w)[c := (clientObjs w ! c)\<lparr>client_mu := True\<rparr>]\<rparr>))"

definition mu_Unlock :: "cref \<Rightarrow> World \<Rightarrow> fault + World" where
  "mu_Unlock c w =
     (if client_mu (clientObjs w ! c)
      then Inr (w\<lparr>clientObjs := (clientObjs w)[c := (clientObjs w ! c)\<lparr>client_mu := False\<rparr>]\<rparr>)
      else Inl UnlockOfUnlockedMutex)"

text \<open>\<open>getMessage\<close>: every word is followed by a space (\<open>i < len(input)\<close> always holds).\<close>

definition getMessage :: "string list \<Rightarrow> string" where
  "getMessage input = concat (map (\<lambda>word. word @ '' '') input)"

definition getClientID :: "string \<Rightarrow> World \<Rightarrow> u64 \<times> World" where
  "getClientID clientID w =
     (case strconv_ParseUint clientID of
        None \<Rightarrow> (0, logLine ''Given text was not a valid clientID.'' w)
      | Some converted \<Rightarrow> (converted, w))"

text \<open>
  The case \<open>"disable"\<close> of \<open>processStdin\<close>, on the words of the line: the world and
  the tasks started, or the fault.
\<close>

definition processStdin_disable :: "string list \<Rightarrow> World \<Rightarrow> fault + World \<times> task list" where
  "processStdin_disable splitInput w =
     (if length splitInput \<le> 1 then Inl IndexOutOfRange
      else
        (let (targetClientId, w) = getClientID (splitInput ! 1) w
         in if targetClientId = 0 then Inr (w, [])
            else
              (case onlineClients (server w) targetClientId of
                 Some client \<Rightarrow>
                   (case mu_Unlock client w of
                      Inl f \<Rightarrow> Inl f
                    | Inr w \<Rightarrow>
                        (let w = logLine (''[Server] DISABLE_ANCHOR packet -> ''
                                          @ digits (unat (client_id (clientObjs w ! client)))) w
                         in case mu_Unlock client w of
                              Inl f \<Rightarrow> Inl f
                            | Inr w \<Rightarrow> Inr (w, [SendDisable client (getMessage (drop 2 splitInput))])))
               | None \<Rightarrow>
                   Inr (logLine (''Client '' @ digits (unat targetClientId) @ '' not found'') w, []))))"

text \<open>The case \<open>"message"\<close>, which locks before it unlocks.\<close>

definition processStdin_message :: "string list \<Rightarrow> World \<Rightarrow> fault + World \<times> task list" where
  "processStdin_message splitInput w =
     (if length splitInput \<le> 1 then Inl IndexOutOfRange
      else
        (let (targetClientId, w) = getClientID (splitInput ! 1) w
         in if targetClientId = 0 then Inr (w, [])
            else
              (case onlineClients (server w) targetClientId of
                 Some client \<Rightarrow>
                   (case mu_Lock client w of
                      Inl f \<Rightarrow> Inl f
                    | Inr w \<Rightarrow>
                        (let w = logLine (''[Server] SERVER_MESSAGE packet -> ''
                                          @ digits (unat (client_id (clientObjs w ! client)))) w
                         in case mu_Unlock client w of
                              Inl f \<Rightarrow> Inl f
                            | Inr w \<Rightarrow> Inr (w, [SendServerMessage client (getMessage (drop 2 splitInput))])))
               | None \<Rightarrow>
                   Inr (logLine (''Client '' @ digits (unat targetClientId) @ '' not found'') w, []))))"

section \<open>Predicates of the specification\<close>

text \<open>A handshake whose \<open>roomId\<close> member is absent, or the empty string.\<close>

definition omitsRoomId :: "jtext \<Rightarrow> bool" where
  "omitsRoomId packet =
     (gjson_Get packet [''roomId''] = None \<or> gjson_Get packet [''roomId''] = Some (JString []))"


text \<open>
  A room's client mapping files every session under the session's own identity, as
  \<open>room.clients[clientId] = client\<close> does for a session created with \<open>id: clientId\<close>.
\<close>

definition keyed :: "World \<Rightarrow> bool" where
  "keyed w =
     (\<forall>r k c. r < length (roomObjs w) \<longrightarrow> room_clients (roomObjs w ! r) k = Some c
        \<longrightarrow> client_id (clientObjs w ! c) = k)"

text \<open>The identities of the sessions a run of handshakes returns, read in the final world.\<close>

definition identities :: "cref list \<times> World \<Rightarrow> u64 list" where
  "identities r = map (\<lambda>c. client_id (clientObjs (snd r) ! c)) (fst r)"

text \<open>
  An identity taken from the counter: the counter runs through \<open>next\<close>, its successor
  (zero skipped), and so on; the identity is the first of these values that is not online,
  every value before it is online, and the counter is left one step past the identity.
  \<open>r\<close> is the pair of the identity and the counter afterwards.
\<close>

definition counterOrbit :: "(u64 \<rightharpoonup> cref) \<Rightarrow> u64 \<Rightarrow> u64 \<times> u64 \<Rightarrow> bool" where
  "counterOrbit online next r =
     (\<exists>k. fst r = (incrementNextClientId ^^ k) next \<and>
          snd r = (incrementNextClientId ^^ Suc k) next \<and>
          (\<forall>j<k. online ((incrementNextClientId ^^ j) next) \<noteq> None))"

text \<open>
  The number of clients that were ever given an identity, as far as the world records it:
  the distinct identities of the sessions constructed so far (no session object is ever
  dropped from the store).
\<close>

definition clientsEverAssigned :: "World \<Rightarrow> nat" where
  "clientsEverAssigned w = length (remdups (map client_id (clientObjs w)))"

section \<open>Concrete payloads and states\<close>

text \<open>
  The handshake of the specification's scenario,
  \<open>{"type":"HANDSHAKE","clientId":0,"roomId":"r1","clientState":{"teamId":"red"}}\<close>.
\<close>

definition handshake_r1 :: json where
  "handshake_r1 = JObject
     [(''type'', JString ''HANDSHAKE''), (''clientId'', JNumber 0),
      (''roomId'', JString ''r1''),
      (''clientState'', JObject [(''teamId'', JString ''red'')])]"

text \<open>
  A handshake that claims identity 1 for the same room,
  \<open>{"type":"HANDSHAKE","clientId":1,"roomId":"r1","clientState":{"teamId":"blue"}}\<close>.
\<close>

definition handshake_claim1 :: json where
  "handshake_claim1 = JObject
     [(''type'', JString ''HANDSHAKE''), (''clientId'', JNumber 1),
      (''roomId'', JString ''r1''),
      (''clientState'', JObject [(''teamId'', JString ''blue'')])]"

text \<open>A handshake without the members \<open>clientId\<close> and \<open>roomId\<close>, \<open>{"type":"HANDSHAKE"}\<close>.\<close>

definition handshake_bare :: json where
  "handshake_bare = JObject [(''type'', JString ''HANDSHAKE'')]"

text \<open>The payloads \<open>{"type":"STATS"}\<close> and \<open>{"type":5}\<close>.\<close>

definition stats_packet :: json where
  "stats_packet = JObject [(''type'', JString ''STATS'')]"

definition typed5_packet :: json where
  "typed5_packet = JObject [(''type'', JNumber 5)]"

text \<open>
  A handshake that claims identity 5, which nobody holds,
  \<open>{"type":"HANDSHAKE","clientId":5,"roomId":"r1","clientState":{"teamId":"red"}}\<close>.
\<close>

definition handshake_claim5 :: json where
  "handshake_claim5 = JObject
     [(''type'', JString ''HANDSHAKE''), (''clientId'', JNumber 5),
      (''roomId'', JString ''r1''),
      (''clientState'', JObject [(''teamId'', JString ''red'')])]"

text \<open>
  The world after the handshake \<open>handshake_r1\<close> on a new server, at instant 100 on
  connection 1 (\<open>first_handshake\<close> below): one session, of identity 1, online and in
  room \<open>r1\<close>, team \<open>red\<close>.
\<close>

definition world_one_online :: World where
  "world_one_online =
     \<lparr>server = \<lparr>quietMode = False, onlineClients = [1 \<mapsto> 0], rooms = [''r1'' \<mapsto> 0],
        gamesCompleted = 0, nextClientId = 2\<rparr>,
      clientObjs = [\<lparr>client_id = 1, client_conn = Some 1, client_room = 0, client_team = 0,
        client_state = Some (JObject [(''teamId'', JString ''red''), (''clientId'', JNumber 1)]),
        client_lastActivity = 100, client_mu = False\<rparr>],
      roomObjs = [\<lparr>room_id = ''r1'', room_clients = [1 \<mapsto> 0], room_teams = [''red'' \<mapsto> 0],
        room_lastActivity = 100\<rparr>],
      teamObjs = [\<lparr>team_id = ''red'', team_clients = Map.empty\<rparr>],
      statsFile = None, sent = [], logged = []\<rparr>"

text \<open>
  The same world after that session has disconnected: off the online mapping, its
  connection nil, still resident in its room.
\<close>

definition world_one_offline :: World where
  "world_one_offline =
     world_one_online
       \<lparr>server := (server world_one_online)\<lparr>onlineClients := Map.empty\<rparr>,
        clientObjs := [(clientObjs world_one_online ! 0)\<lparr>client_conn := None\<rparr>]\<rparr>"


text \<open>Methods that do nothing but log that they were called.\<close>

definition tracingMethods :: Methods where
  "tracingMethods =
     \<lparr>handlePacket = (\<lambda>c packet. logLine ''handlePacket''),
      broadcastAllClientState = (\<lambda>room. logLine ''broadcastAllClientState''),
      sendRoomState = (\<lambda>c. logLine ''sendRoomState''),
      disconnect = (\<lambda>c. logLine ''disconnect'')\<rparr>"

section \<open>Decimal numerals and the snapshot\<close>

lemma digit_char: "d < 10 \<Longrightarrow> isDigit (char_of (48 + d)) \<and> (of_char (char_of (48 + d :: nat)) :: nat) - 48 = d"
  by (simp add: isDigit_def of_char_of)

lemma parseDigits_append:
  "parseDigits a (xs @ ys) = (case parseDigits a xs of None \<Rightarrow> None | Some b \<Rightarrow> parseDigits b ys)"
  by (induction xs arbitrary: a) auto

lemma parseDigits_digits: "parseDigits 0 (digits n) = Some (of_nat n)"
proof (induction n rule: digits.induct)
  case (1 n)
  show ?case
  proof (cases "n < 10")
    case True
    then show ?thesis using digit_char [of n] by (simp add: digits.simps [of n])
  next
    case False
    have m: "n mod 10 < 10" by simp
    have e: "(of_nat (n div 10) :: u64) * 10 + of_nat (n mod 10) = of_nat n"
    proof -
      have "(of_nat (n div 10 * 10 + n mod 10) :: u64) = of_nat (n div 10) * 10 + of_nat (n mod 10)"
        by (simp only: of_nat_add of_nat_mult of_nat_numeral)
      then show ?thesis by simp
    qed
    show ?thesis
      using False 1 digit_char [OF m] e
      by (simp add: digits.simps [of n] parseDigits_append)
  qed
qed

lemma digits_nonempty: "digits n \<noteq> []"
  by (subst digits.simps) simp

lemma digits_hd: "isDigit (hd (digits n))"
proof (induction n rule: digits.induct)
  case (1 n)
  show ?case
  proof (cases "n < 10")
    case True
    then show ?thesis using digit_char [of n] by (simp add: digits.simps [of n])
  next
    case False
    then show ?thesis using 1 digits_nonempty [of "n div 10"]
      by (simp add: digits.simps [of n])
  qed
qed

lemma hd_digits_not_minus: "hd (digits n) \<noteq> CHR ''-''"
  using digits_hd [of n] by (auto simp: isDigit_def)

lemma parseInt_itoa_nonneg: "0 \<le> n \<Longrightarrow> parseInt (itoa n) = Some (word_of_int n)"
  using digits_nonempty [of "nat n"] hd_digits_not_minus [of "nat n"] parseDigits_digits [of "nat n"]
  by (auto simp: parseInt_def itoa_def split: list.splits)

lemma Result_Int_of_uint64: "Result_Int (Some (of_uint64 v)) = v"
  by (simp add: of_uint64_def parseInt_itoa_nonneg)

lemma saveThenLoad_counters:
  "gamesCompleted (server (saveThenLoad stamp w)) = gamesCompleted (server w) \<and>
   nextClientId (server (saveThenLoad stamp w)) = nextClientId (server w)"
  using Result_Int_of_uint64 [of "gamesCompleted (server w)"]
        Result_Int_of_uint64 [of "nextClientId (server w)"]
  by (simp add: saveThenLoad_def saveStats_def parseStats_def main_init_def JSON_TEMPLATE_def
      gjson_Get_def Let_def)

subsection \<open>The float behind a number\<close>

lemma bitLength_numeral: "bitLength (numeral k) = Suc (bitLength (numeral k div 2))"
  by (subst bitLength.simps) simp

lemma bitLength_0: "bitLength 0 = 0"
  by (subst bitLength.simps) simp

lemma bitLength_1: "bitLength (Suc 0) = Suc 0"
  by (subst bitLength.simps) (simp add: bitLength_0)

text \<open>
  The literal \<open>-9007199254740993\<close> lies halfway between two floats and is kept as
  \<open>-9007199254740992\<close>; \<open>Result.Uint()\<close> converts that float.
\<close>

lemma roundFloat64_tie: "roundFloat64 (- 9007199254740993) = - 9007199254740992"
  by (simp add: roundFloat64_def Let_def bitLength_numeral bitLength_0 bitLength_1)

lemma Result_Uint_negative_rounded:
  "Result_Uint (Some (JNumber (- 9007199254740993))) = 18437736874454810624"
  by (simp add: roundFloat64_tie parseUint_def itoa_def convertFloat_def isDigit_def)

text \<open>
  Claim C5. The document \<open>saveStats\<close> writes, read by \<open>parseStats\<close> in a fresh
  process, gives back the games-completed counter and the next-identity counter of the
  process that saved; and so does any number of such cycles in a row, with nothing else
  happening in between.
\<close>

theorem snapshot_round_trip:
  "gamesCompleted (server (saveThenLoad stamp w)) = gamesCompleted (server w) \<and>
   nextClientId (server (saveThenLoad stamp w)) = nextClientId (server w) \<and>
   gamesCompleted (server (fold saveThenLoad stamps w)) = gamesCompleted (server w) \<and>
   nextClientId (server (fold saveThenLoad stamps w)) = nextClientId (server w)"
proof -
  have "gamesCompleted (server (fold saveThenLoad stamps w)) = gamesCompleted (server w) \<and>
        nextClientId (server (fold saveThenLoad stamps w)) = nextClientId (server w)"
    by (induction stamps arbitrary: w) (simp_all add: saveThenLoad_counters)
  then show ?thesis by (simp add: saveThenLoad_counters)
qed

text \<open>
  Claim C4, at the missing file. \<open>parseStats\<close> logs the read error and goes on: it reads
  both counters from the empty text. The games-completed counter is 0, and the identity
  counter is 0 as well, not the 1 that \<open>NewServer\<close> has set.
\<close>

theorem parseStats_missing_file:
  "nextClientId (server (parseStats (main_init None))) = 0 \<and>
   nextClientId NewServer = 1 \<and>
   gamesCompleted (server (parseStats (main_init None))) = 0 \<and>
   logged (parseStats (main_init None)) = [''Error reading stats.json file:'']"
  by (simp add: parseStats_def main_init_def NewServer_def gjson_Get_def logLine_def)

section \<open>Identity allocation and session resolution\<close>

lemma incr_nonzero: "incrementNextClientId n \<noteq> 0"
  unfolding incrementNextClientId_def
  by (auto simp: add_eq_0_iff)

lemma incr_measure:
  fixes f n :: u64
  assumes "f \<noteq> 0" "n \<noteq> f"
  shows "unat (f - incrementNextClientId n) < unat (f - n)"
proof (cases "n + 1 = 0")
  case False
  have "f - n \<noteq> 0" using assms by simp
  then have "unat (f - n - 1) = unat (f - n) - 1" "unat (f - n) \<noteq> 0"
    by (simp_all add: unat_minus_one unat_eq_zero)
  moreover have e: "f - (n + 1) = f - n - 1" by (simp add: algebra_simps)
  ultimately have "unat (f - (n + 1)) < unat (f - n)" unfolding e by linarith
  then show ?thesis using False by (simp only: incrementNextClientId_def if_False)
next
  case True
  then have n: "n = - 1" by (simp add: add_eq_0_iff2)
  have "f + 1 \<noteq> 0" using assms n by (simp add: add_eq_0_iff2)
  then have a: "unat (f + 1) = Suc (unat f)" by (metis add.commute unatSuc)
  have b: "unat (f - 1) = unat f - 1" using assms by (simp add: unat_minus_one)
  show ?thesis using True n a b by (simp add: incrementNextClientId_def)
qed

lemma loop_terminates_aux:
  assumes "online f = None" "f \<noteq> 0"
  shows "unat (f - next) = k \<Longrightarrow> \<exists>r. findOrCreateClient_loop online clientId next = Some r"
proof (induction k arbitrary: clientId "next" rule: less_induct)
  case (less k)
  show ?case
  proof (cases "online clientId = None")
    case True
    then show ?thesis by (simp add: findOrCreateClient_loop.simps)
  next
    case False
    note busy = this
    show ?thesis
    proof (cases "online next = None")
      case True
      then show ?thesis using busy
        by (simp add: findOrCreateClient_loop.simps [of online clientId]
                      findOrCreateClient_loop.simps [of online "next"])
    next
      case False
      then have "next \<noteq> f" using assms by auto
      then have "unat (f - incrementNextClientId next) < unat (f - next)"
        by (rule incr_measure [OF assms(2)])
      then have "unat (f - incrementNextClientId next) < k"
        unfolding less.prems .
      from less.IH [OF this refl]
      obtain r where "findOrCreateClient_loop online next (incrementNextClientId next) = Some r"
        by blast
      then show ?thesis using busy
        by (simp add: findOrCreateClient_loop.simps [of online clientId])
    qed
  qed
qed

lemma loop_terminates:
  "online f = None \<Longrightarrow> f \<noteq> 0 \<Longrightarrow> \<exists>r. findOrCreateClient_loop online clientId next = Some r"
  using loop_terminates_aux by blast

lemma loop_result:
  assumes "findOrCreateClient_loop online clientId next = Some r"
  shows "online (fst r) = None \<and>
     (clientId \<noteq> 0 \<longrightarrow> next \<noteq> 0 \<longrightarrow> fst r \<noteq> 0 \<and> snd r \<noteq> 0) \<and>
     (next \<noteq> 0 \<longrightarrow> snd r \<noteq> 0) \<and>
     (online clientId = None \<longrightarrow> r = (clientId, next))"
proof -
  define P where "P = (\<lambda>(online :: u64 \<rightharpoonup> cref) clientId (next :: u64) r.
     online (fst r) = None \<and>
     (clientId \<noteq> 0 \<longrightarrow> next \<noteq> 0 \<longrightarrow> fst r \<noteq> 0 \<and> snd r \<noteq> 0) \<and>
     (next \<noteq> 0 \<longrightarrow> snd r \<noteq> 0) \<and>
     (online clientId = None \<longrightarrow> r = (clientId, next)))"
  have "P online clientId next r"
  proof (rule findOrCreateClient_loop.raw_induct [where P = P, OF _ assms])
    fix loop and online :: "u64 \<rightharpoonup> cref" and clientId "next" r
    assume IH: "\<And>online clientId next r. loop online clientId next = Some r \<Longrightarrow> P online clientId next r"
      and eq: "(if online clientId = None then Some (clientId, next)
                else loop online next (incrementNextClientId next)) = Some r"
    show "P online clientId next r"
    proof (cases "online clientId = None")
      case True
      then show ?thesis using eq by (auto simp: P_def)
    next
      case False
      then have "loop online next (incrementNextClientId next) = Some r"
        using eq by (auto split: if_splits)
      from IH [OF this] show ?thesis
        using False incr_nonzero [of "next"] by (auto simp: P_def)
    qed
  qed
  then show ?thesis by (simp add: P_def)
qed

lemma findOrCreateClient_id_result:
  assumes "findOrCreateClient_id packet s = Some (clientId, s')"
  shows "onlineClients s clientId = None \<and>
         (\<exists>n. s' = s\<lparr>nextClientId := n\<rparr>) \<and>
         (nextClientId s \<noteq> 0 \<longrightarrow> clientId \<noteq> 0 \<and> nextClientId s' \<noteq> 0)"
proof -
  obtain c0 n0 where st: "(if Result_Uint (gjson_Get packet [''clientId'']) = 0
            then (nextClientId s, incrementNextClientId (nextClientId s))
            else (Result_Uint (gjson_Get packet [''clientId'']), nextClientId s)) = (c0, n0)"
    by fastforce
  with assms obtain r where r: "findOrCreateClient_loop (onlineClients s) c0 n0 = Some r"
    and res: "clientId = fst r" "s' = s\<lparr>nextClientId := snd r\<rparr>"
    by (auto simp: findOrCreateClient_id_def Let_def split: option.splits prod.splits)
  have "nextClientId s \<noteq> 0 \<Longrightarrow> c0 \<noteq> 0 \<and> n0 \<noteq> 0"
    using st incr_nonzero [of "nextClientId s"] by (auto split: if_splits)
  then show ?thesis using loop_result [OF r] res by auto
qed

lemma findOrCreateClient_id_returns:
  assumes "onlineClients s f = None" "f \<noteq> 0"
  shows "\<exists>r. findOrCreateClient_id packet s = Some r"
proof -
  obtain c0 n0 where st: "(if Result_Uint (gjson_Get packet [''clientId'']) = 0
            then (nextClientId s, incrementNextClientId (nextClientId s))
            else (Result_Uint (gjson_Get packet [''clientId'']), nextClientId s)) = (c0, n0)"
    by fastforce
  obtain r where "findOrCreateClient_loop (onlineClients s) c0 n0 = Some r"
    using loop_terminates [of "onlineClients s" f c0 n0] assms by blast
  then show ?thesis
    using st by (cases r) (simp add: findOrCreateClient_id_def Let_def)
qed

lemma findOrCreateClient_id_claimed:
  assumes "Result_Uint (gjson_Get packet [''clientId'']) = x" "x \<noteq> 0" "onlineClients s x = None"
  shows "findOrCreateClient_id packet s = Some (x, s)"
  using assms by (simp add: findOrCreateClient_id_def findOrCreateClient_loop.simps)

lemma findOrCreateRoom_result:
  assumes "wellFormed w" "findOrCreateRoom now packet clientId w = (room, w1)"
  shows "wellFormed w1 \<and> room < length (roomObjs w1) \<and>
     rooms (server w1) (Result_String (gjson_Get packet [''roomId''])) = Some room \<and>
     clientObjs w1 = clientObjs w \<and> teamObjs w1 = teamObjs w \<and>
     onlineClients (server w1) = onlineClients (server w) \<and>
     nextClientId (server w1) = nextClientId (server w) \<and>
     gamesCompleted (server w1) = gamesCompleted (server w) \<and>
     (case rooms (server w) (Result_String (gjson_Get packet [''roomId''])) of
        Some r \<Rightarrow> room = r \<and> w1 = w
      | None \<Rightarrow> room = length (roomObjs w) \<and>
          roomObjs w1 = roomObjs w @ [NewRoom now (Result_String (gjson_Get packet [''roomId''])) clientId packet])"
proof (cases "rooms (server w) (Result_String (gjson_Get packet [''roomId'']))")
  case None
  then have w1: "w1 = w\<lparr>roomObjs := roomObjs w @ [NewRoom now (Result_String (gjson_Get packet [''roomId''])) clientId packet],
        server := (server w)\<lparr>rooms := (rooms (server w))(Result_String (gjson_Get packet [''roomId'']) \<mapsto> length (roomObjs w))\<rparr>\<rparr>"
    and r: "room = length (roomObjs w)"
    using assms(2) by (auto simp: findOrCreateRoom_def Let_def)
  have "wellFormed w1"
    using assms(1) unfolding w1 wellFormed_def
    by (auto simp: nth_append NewRoom_def less_Suc_eq)
  then show ?thesis using None w1 r by simp
next
  case (Some r)
  then have "w1 = w" "room = r" using assms(2) by (auto simp: findOrCreateRoom_def Let_def)
  then show ?thesis using Some assms(1) by (auto simp: wellFormed_def)
qed

lemma findOrCreateTeam_result:
  assumes "wellFormed w" "room < length (roomObjs w)" "findOrCreateTeam room teamId w = (team, w1)"
  shows "wellFormed w1 \<and> length (roomObjs w1) = length (roomObjs w) \<and>
     server w1 = server w \<and> clientObjs w1 = clientObjs w \<and>
     room_teams (roomObjs w1 ! room) teamId = Some team \<and>
     (\<forall>r < length (roomObjs w). room_clients (roomObjs w1 ! r) = room_clients (roomObjs w ! r))"
proof (cases "room_teams (roomObjs w ! room) teamId")
  case None
  then have w1: "w1 = w\<lparr>teamObjs := teamObjs w @ [\<lparr>team_id = teamId, team_clients = Map.empty\<rparr>],
                       roomObjs := (roomObjs w)[room := (roomObjs w ! room)
                         \<lparr>room_teams := (room_teams (roomObjs w ! room))(teamId \<mapsto> length (teamObjs w))\<rparr>]\<rparr>"
    and t: "team = length (teamObjs w)"
    using assms(3) by (auto simp: findOrCreateTeam_def Let_def)
  have "wellFormed w1"
    using assms(1,2) unfolding w1 wellFormed_def
    by (auto simp: nth_list_update less_Suc_eq split: if_splits)
  then show ?thesis using assms(2) w1 t by (simp add: nth_list_update)
next
  case (Some t)
  then have "w1 = w" "team = t" using assms(3) by (auto simp: findOrCreateTeam_def Let_def)
  then show ?thesis using Some assms(1) by simp
qed

lemma findOrCreateClient_session_result:
  assumes wf: "wellFormed w"
    and eq: "findOrCreateClient_session now packet conn clientId w = (c, w')"
  shows "\<exists>room team.
     rooms (server w') (Result_String (gjson_Get packet [''roomId''])) = Some room \<and>
     room < length (roomObjs w') \<and>
     room_teams (roomObjs w' ! room) (Result_String (gjson_Get packet [''clientState'', ''teamId''])) = Some team \<and>
     room_clients (roomObjs w' ! room) clientId = Some c \<and>
     onlineClients (server w') = (onlineClients (server w))(clientId \<mapsto> c) \<and>
     nextClientId (server w') = nextClientId (server w) \<and>
     wellFormed w' \<and>
     (case (case rooms (server w) (Result_String (gjson_Get packet [''roomId''])) of
              None \<Rightarrow> None
            | Some r \<Rightarrow> room_clients (roomObjs w ! r) clientId) of
        Some c0 \<Rightarrow>
          c = c0 \<and>
          clientObjs w' = (clientObjs w)[c0 := (clientObjs w ! c0)
             \<lparr>client_conn := Some conn, client_team := team,
              client_state := sjson_Set (Result_Raw (gjson_Get packet [''clientState'']))
                                ''clientId'' (of_uint64 clientId),
              client_lastActivity := now\<rparr>]
      | None \<Rightarrow>
          c = length (clientObjs w) \<and>
          clientObjs w' = clientObjs w @
             [\<lparr>client_id = clientId, client_conn = Some conn, client_room = room,
               client_team = team,
               client_state = sjson_Set (Result_Raw (gjson_Get packet [''clientState'']))
                                ''clientId'' (of_uint64 clientId),
               client_lastActivity = now, client_mu = False\<rparr>])"
proof -
  let ?roomId = "Result_String (gjson_Get packet [''roomId''])"
  let ?teamId = "Result_String (gjson_Get packet [''clientState'', ''teamId''])"
  obtain room w1 where r1: "findOrCreateRoom now packet clientId w = (room, w1)"
    by fastforce
  obtain team w2 where r2: "findOrCreateTeam room ?teamId w1 = (team, w2)"
    by fastforce
  note R = findOrCreateRoom_result [OF wf r1]
  then have wf1: "wellFormed w1" and rl: "room < length (roomObjs w1)" by simp_all
  note T = findOrCreateTeam_result [OF wf1 rl r2]
  then have wf2: "wellFormed w2" and rl2: "room < length (roomObjs w2)" using rl by simp_all
  have rc: "room_clients (roomObjs w2 ! room) = room_clients (roomObjs w1 ! room)"
    using T rl by simp
  have old: "(case rooms (server w) ?roomId of None \<Rightarrow> None
              | Some r \<Rightarrow> room_clients (roomObjs w ! r) clientId)
             = room_clients (roomObjs w2 ! room) clientId"
    using R rc by (auto simp: NewRoom_def split: option.splits)
  show ?thesis
  proof (cases "room_clients (roomObjs w2 ! room) clientId")
    case None
    then have c: "c = length (clientObjs w2)"
      and w': "w' = w2\<lparr>clientObjs := clientObjs w2 @
                        [\<lparr>client_id = clientId, client_conn = Some conn, client_room = room,
                          client_team = team,
                          client_state = sjson_Set (Result_Raw (gjson_Get packet [''clientState'']))
                                ''clientId'' (of_uint64 clientId),
                          client_lastActivity = now, client_mu = False\<rparr>],
                      roomObjs := (roomObjs w2)[room := (roomObjs w2 ! room)
                        \<lparr>room_clients := (room_clients (roomObjs w2 ! room))(clientId \<mapsto> length (clientObjs w2))\<rparr>],
                      server := (server w2)
            \<lparr>onlineClients := (onlineClients (server w2))(clientId \<mapsto> length (clientObjs w2))\<rparr>\<rparr>"
      using eq r1 r2 by (auto simp: findOrCreateClient_session_def Let_def)
    have "wellFormed w'"
      using wf2 rl2 unfolding w' wellFormed_def
      by (auto simp: nth_list_update less_Suc_eq split: if_splits)
    then show ?thesis
      using None c w' R T rl2 old by (auto simp: nth_list_update)
  next
    case (Some c0)
    then have c: "c = c0"
      and w': "w' = w2\<lparr>clientObjs := (clientObjs w2)[c0 := (clientObjs w2 ! c0)
                    \<lparr>client_conn := Some conn, client_team := team,
                     client_state := sjson_Set (Result_Raw (gjson_Get packet [''clientState'']))
                                ''clientId'' (of_uint64 clientId),
                     client_lastActivity := now\<rparr>],
                  server := (server w2)
            \<lparr>onlineClients := (onlineClients (server w2))(clientId \<mapsto> c0)\<rparr>\<rparr>"
      using eq r1 r2 by (auto simp: findOrCreateClient_session_def Let_def)
    have c0: "c0 < length (clientObjs w2)"
      using wf2 rl2 Some by (auto simp: wellFormed_def)
    have "wellFormed w'"
      using wf2 rl2 c0 unfolding w' wellFormed_def
      by (auto split: if_splits)
    then show ?thesis
      using Some c w' R T rl2 old by auto
  qed
qed

lemma findOrCreateRoom_frame:
  assumes "findOrCreateRoom now packet clientId w = (room, w1)" "wellFormed w"
  shows "length (roomObjs w) \<le> length (roomObjs w1) \<and>
     (\<forall>k r. rooms (server w) k = Some r \<longrightarrow> rooms (server w1) k = Some r) \<and>
     (\<forall>r<length (roomObjs w). roomObjs w1 ! r = roomObjs w ! r)"
  using assms
  by (auto simp: findOrCreateRoom_def Let_def nth_append wellFormed_def split: option.splits)

lemma findOrCreateTeam_frame:
  assumes "findOrCreateTeam room teamId w = (team, w1)" "room < length (roomObjs w)"
  shows "\<forall>r<length (roomObjs w). room_id (roomObjs w1 ! r) = room_id (roomObjs w ! r)"
  using assms
  by (auto simp: findOrCreateTeam_def Let_def nth_list_update split: option.splits)

lemma findOrCreateClient_session_frame:
  assumes wf: "wellFormed w"
    and eq: "findOrCreateClient_session now packet conn clientId w = (c, w')"
  shows "length (roomObjs w) \<le> length (roomObjs w') \<and>
     (\<forall>k r. rooms (server w) k = Some r \<longrightarrow> rooms (server w') k = Some r) \<and>
     (\<forall>r<length (roomObjs w). \<forall>k x. room_clients (roomObjs w ! r) k = Some x
         \<longrightarrow> room_clients (roomObjs w' ! r) k = Some x)"
proof -
  let ?teamId = "Result_String (gjson_Get packet [''clientState'', ''teamId''])"
  obtain room w1 where r1: "findOrCreateRoom now packet clientId w = (room, w1)"
    by fastforce
  obtain team w2 where r2: "findOrCreateTeam room ?teamId w1 = (team, w2)"
    by fastforce
  note R = findOrCreateRoom_result [OF wf r1]
  note F = findOrCreateRoom_frame [OF r1 wf]
  from R have wf1: "wellFormed w1" and rl: "room < length (roomObjs w1)" by simp_all
  note T = findOrCreateTeam_result [OF wf1 rl r2]
  have a: "length (roomObjs w') = length (roomObjs w2)" "rooms (server w') = rooms (server w2)"
    using eq r1 r2
    by (auto simp: findOrCreateClient_session_def Let_def split: option.splits)
  have rl2: "room < length (roomObjs w2)" using T rl by simp
  have b: "\<forall>r<length (roomObjs w2). \<forall>k x. room_clients (roomObjs w2 ! r) k = Some x
         \<longrightarrow> room_clients (roomObjs w' ! r) k = Some x"
    using eq r1 r2 rl2
    by (auto simp: findOrCreateClient_session_def Let_def nth_list_update split: option.splits)
  show ?thesis
    using a b F T by auto
qed

lemma findOrCreateClient_frame:
  assumes wf: "wellFormed w" and eq: "findOrCreateClient now packet conn w = Some (c, w')"
  shows "wellFormed w' \<and> length (roomObjs w) \<le> length (roomObjs w') \<and>
     (\<forall>k r. rooms (server w) k = Some r \<longrightarrow> rooms (server w') k = Some r) \<and>
     (\<forall>r<length (roomObjs w). \<forall>k x. room_clients (roomObjs w ! r) k = Some x
         \<longrightarrow> room_clients (roomObjs w' ! r) k = Some x) \<and>
     (\<exists>room clientId. rooms (server w') (Result_String (gjson_Get packet [''roomId''])) = Some room \<and>
        room < length (roomObjs w') \<and> room_clients (roomObjs w' ! room) clientId = Some c)"
proof -
  from eq obtain clientId s where
    i: "findOrCreateClient_id packet (server w) = Some (clientId, s)"
    and e: "findOrCreateClient_session now packet conn clientId (w\<lparr>server := s\<rparr>) = (c, w')"
    by (auto simp: findOrCreateClient_def split: option.splits)
  from findOrCreateClient_id_result [OF i] obtain n where s: "s = (server w)\<lparr>nextClientId := n\<rparr>"
    by blast
  have wf0: "wellFormed (w\<lparr>server := s\<rparr>)" using wf by (simp add: wellFormed_def s)
  show ?thesis
    using findOrCreateClient_session_result [OF wf0 e] findOrCreateClient_session_frame [OF wf0 e]
    by (simp add: s) blast
qed

lemma handshakes_frame:
  "wellFormed w \<Longrightarrow> handshakes hs w = Some (cs, w') \<Longrightarrow>
     wellFormed w' \<and> length (roomObjs w) \<le> length (roomObjs w') \<and>
     (\<forall>k r. rooms (server w) k = Some r \<longrightarrow> rooms (server w') k = Some r) \<and>
     (\<forall>r<length (roomObjs w). \<forall>k x. room_clients (roomObjs w ! r) k = Some x
         \<longrightarrow> room_clients (roomObjs w' ! r) k = Some x)"
proof (induction hs arbitrary: w cs)
  case Nil
  then show ?case by simp
next
  case (Cons h hs)
  obtain now packet conn where h: "h = (now, packet, conn)" by (cases h) auto
  from Cons.prems(2) obtain c w1 cs1 where
    f: "findOrCreateClient now packet conn w = Some (c, w1)"
    and r: "handshakes hs w1 = Some (cs1, w')"
    by (auto simp: h split: option.splits)
  note F = findOrCreateClient_frame [OF Cons.prems(1) f]
  then have wf1: "wellFormed w1" by simp
  note I = Cons.IH [OF wf1 r]
  show ?case
  proof (intro conjI allI impI)
    show "wellFormed w'" using I by simp
    show "length (roomObjs w) \<le> length (roomObjs w')" using F I by linarith
    show "rooms (server w') k = Some r" if "rooms (server w) k = Some r" for k r
      using that F I by blast
    show "room_clients (roomObjs w' ! r) k = Some x"
      if "r < length (roomObjs w)" "room_clients (roomObjs w ! r) k = Some x" for r k x
    proof -
      have "room_clients (roomObjs w1 ! r) k = Some x" using that F by blast
      moreover have "r < length (roomObjs w1)" using that F by linarith
      ultimately show ?thesis using I by blast
    qed
  qed
qed

section \<open>Handshakes on concrete states and in runs\<close>

lemmas eval_defs = findOrCreateClient_def findOrCreateClient_id_def findOrCreateClient_loop.simps
      findOrCreateClient_session_def findOrCreateRoom_def findOrCreateTeam_def NewRoom_def
      incrementNextClientId_def main_init_def NewServer_def gjson_Get_def
      of_uint64_def Result_Raw_def Let_def parseStats_def logLine_def

lemma wellFormed_world_one_offline: "wellFormed world_one_offline"
  by (auto simp: wellFormed_def world_one_offline_def world_one_online_def split: if_splits)

lemma omitsRoomId_String: "omitsRoomId packet \<Longrightarrow> Result_String (gjson_Get packet [''roomId'']) = []"
  by (auto simp: omitsRoomId_def)

lemma findOrCreateClient_returns:
  assumes "onlineClients (server w) f = None" "f \<noteq> 0"
  shows "\<exists>c w1. findOrCreateClient now packet conn w = Some (c, w1)"
proof -
  obtain r where "findOrCreateClient_id packet (server w) = Some r"
    using findOrCreateClient_id_returns [OF assms] by blast
  then show ?thesis
    by (cases r) (auto simp: findOrCreateClient_def split: prod.splits)
qed

lemma findOrCreateClient_new_room_id:
  assumes wf: "wellFormed w" and eq: "findOrCreateClient now packet conn w = Some (c, w')"
    and new: "rooms (server w) (Result_String (gjson_Get packet [''roomId''])) = None"
  shows "rooms (server w') (Result_String (gjson_Get packet [''roomId''])) = Some (length (roomObjs w)) \<and>
         room_id (roomObjs w' ! length (roomObjs w)) = Result_String (gjson_Get packet [''roomId''])"
proof -
  from eq obtain clientId s where
    i: "findOrCreateClient_id packet (server w) = Some (clientId, s)"
    and e: "findOrCreateClient_session now packet conn clientId (w\<lparr>server := s\<rparr>) = (c, w')"
    by (auto simp: findOrCreateClient_def split: option.splits)
  from findOrCreateClient_id_result [OF i] obtain n where s: "s = (server w)\<lparr>nextClientId := n\<rparr>"
    by blast
  show ?thesis
    using e new
    by (auto simp: s findOrCreateClient_session_def findOrCreateRoom_def findOrCreateTeam_def
        NewRoom_def Let_def nth_append split: option.splits)
qed

lemma handshakes_shared_room:
  "wellFormed w \<Longrightarrow> rooms (server w) [] = Some room \<Longrightarrow>
   \<forall>h\<in>set hs. omitsRoomId (fst (snd h)) \<Longrightarrow> handshakes hs w = Some (cs, w') \<Longrightarrow>
   \<forall>x\<in>set cs. \<exists>clientId. room_clients (roomObjs w' ! room) clientId = Some x"
proof (induction hs arbitrary: w cs)
  case Nil
  then show ?case by simp
next
  case (Cons h hs)
  obtain now packet conn where h: "h = (now, packet, conn)" by (cases h) auto
  from Cons.prems(4) obtain c w1 cs1 where
    f: "findOrCreateClient now packet conn w = Some (c, w1)"
    and r: "handshakes hs w1 = Some (cs1, w')"
    and cs: "cs = c # cs1"
    by (auto simp: h split: option.splits)
  note F = findOrCreateClient_frame [OF Cons.prems(1) f]
  then have wf1: "wellFormed w1" by simp
  have room1: "rooms (server w1) [] = Some room" using F Cons.prems(2) by blast
  have o: "Result_String (gjson_Get packet [''roomId'']) = []"
    using Cons.prems(3) by (simp add: h omitsRoomId_String)
  from F obtain clientId where
    m: "room < length (roomObjs w1)" "room_clients (roomObjs w1 ! room) clientId = Some c"
    using room1 by (auto simp: o)
  have "room_clients (roomObjs w' ! room) clientId = Some c"
    using handshakes_frame [OF wf1 r] m by blast
  moreover have "\<forall>x\<in>set cs1. \<exists>clientId. room_clients (roomObjs w' ! room) clientId = Some x"
    using Cons.IH [OF wf1 room1 _ r] Cons.prems(3) by simp
  ultimately show ?case by (auto simp: cs)
qed

text \<open>
  Runs of handshakes, one after the other: the identities they are given are pairwise
  distinct, none of them was online before the run, none is zero when the counter was not
  zero at the start and no handshake brought an identity of its own; and the run returns
  as long as identities are left.
\<close>

lemma findOrCreateClient_session_entries:
  assumes wf: "wellFormed w"
    and eq: "findOrCreateClient_session now packet conn clientId w = (c, w')"
  shows "\<forall>r<length (roomObjs w'). \<forall>k x. room_clients (roomObjs w' ! r) k = Some x \<longrightarrow>
           (k = clientId \<and> x = c) \<or>
           (r < length (roomObjs w) \<and> room_clients (roomObjs w ! r) k = Some x)"
proof -
  let ?teamId = "Result_String (gjson_Get packet [''clientState'', ''teamId''])"
  obtain room w1 where r1: "findOrCreateRoom now packet clientId w = (room, w1)"
    by fastforce
  obtain team w2 where r2: "findOrCreateTeam room ?teamId w1 = (team, w2)"
    by fastforce
  note R = findOrCreateRoom_result [OF wf r1]
  from R have wf1: "wellFormed w1" and rl: "room < length (roomObjs w1)" by simp_all
  note T = findOrCreateTeam_result [OF wf1 rl r2]
  have rl2: "room < length (roomObjs w2)" using T rl by simp
  have a: "\<forall>r<length (roomObjs w1). \<forall>k x. room_clients (roomObjs w1 ! r) k = Some x \<longrightarrow>
           r < length (roomObjs w) \<and> room_clients (roomObjs w ! r) k = Some x"
    using r1
    by (auto simp: findOrCreateRoom_def Let_def nth_append NewRoom_def less_Suc_eq
        split: option.splits if_splits)
  have b: "length (roomObjs w') = length (roomObjs w2)"
    "\<forall>r<length (roomObjs w2). \<forall>k x. room_clients (roomObjs w' ! r) k = Some x \<longrightarrow>
           (k = clientId \<and> x = c) \<or> room_clients (roomObjs w2 ! r) k = Some x"
    using eq r1 r2 rl2
    by (auto simp: findOrCreateClient_session_def Let_def nth_list_update
        split: option.splits if_splits)
  show ?thesis
    using a b T by (metis (no_types, lifting))
qed

lemma findOrCreateClient_identity:
  assumes wf: "wellFormed w" and ky: "keyed w"
    and eq: "findOrCreateClient now packet conn w = Some (c, w')"
  shows "\<exists>clientId s.
     findOrCreateClient_id packet (server w) = Some (clientId, s) \<and>
     nextClientId (server w') = nextClientId s \<and>
     onlineClients (server w) clientId = None \<and>
     onlineClients (server w') = (onlineClients (server w))(clientId \<mapsto> c) \<and>
     client_id (clientObjs w' ! c) = clientId \<and>
     (Result_Uint (gjson_Get packet [''clientId'']) = 0 \<longrightarrow> nextClientId (server w) \<noteq> 0
        \<longrightarrow> clientId \<noteq> 0) \<and>
     (nextClientId (server w) \<noteq> 0 \<longrightarrow> nextClientId (server w') \<noteq> 0) \<and>
     wellFormed w' \<and> keyed w' \<and> c < length (clientObjs w') \<and>
     length (clientObjs w) \<le> length (clientObjs w') \<and>
     (\<forall>i<length (clientObjs w). client_id (clientObjs w' ! i) = client_id (clientObjs w ! i))"
proof -
  from eq obtain clientId s where
    i: "findOrCreateClient_id packet (server w) = Some (clientId, s)"
    and e: "findOrCreateClient_session now packet conn clientId (w\<lparr>server := s\<rparr>) = (c, w')"
    by (auto simp: findOrCreateClient_def split: option.splits)
  note I = findOrCreateClient_id_result [OF i]
  then obtain n where s: "s = (server w)\<lparr>nextClientId := n\<rparr>" by blast
  have wf0: "wellFormed (w\<lparr>server := s\<rparr>)" using wf by (simp add: wellFormed_def s)
  have eqs: "roomObjs (w\<lparr>server := s\<rparr>) = roomObjs w"
    "clientObjs (w\<lparr>server := s\<rparr>) = clientObjs w"
    "rooms (server (w\<lparr>server := s\<rparr>)) = rooms (server w)"
    "onlineClients (server (w\<lparr>server := s\<rparr>)) = onlineClients (server w)"
    "nextClientId (server (w\<lparr>server := s\<rparr>)) = nextClientId s"
    by (simp_all add: s)
  note S = findOrCreateClient_session_result [OF wf0 e, unfolded eqs]
  note E = findOrCreateClient_session_entries [OF wf0 e, unfolded eqs]
  from S have wf': "wellFormed w'" and on: "onlineClients (server w') = (onlineClients (server w))(clientId \<mapsto> c)"
    and nx: "nextClientId (server w') = nextClientId s"
    by auto
  have "onlineClients (server w') clientId = Some c" using on by simp
  then have cl: "c < length (clientObjs w')" using wf' unfolding wellFormed_def by blast
  show ?thesis
  proof (cases "case rooms (server w) (Result_String (gjson_Get packet [''roomId''])) of
              None \<Rightarrow> None
            | Some r \<Rightarrow> room_clients (roomObjs w ! r) clientId")
    case None
    with S obtain room team where c: "c = length (clientObjs w)"
      and co: "clientObjs w' = clientObjs w @
             [\<lparr>client_id = clientId, client_conn = Some conn, client_room = room,
               client_team = team,
               client_state = sjson_Set (Result_Raw (gjson_Get packet [''clientState'']))
                                ''clientId'' (of_uint64 clientId),
               client_lastActivity = now, client_mu = False\<rparr>]"
      by auto
    have ids: "\<forall>i<length (clientObjs w). client_id (clientObjs w' ! i) = client_id (clientObjs w ! i)"
      by (simp add: co nth_append)
    have idc: "client_id (clientObjs w' ! c) = clientId" by (simp add: co c)
    have "keyed w'"
      unfolding keyed_def
    proof (intro allI impI)
      fix r k x
      assume r: "r < length (roomObjs w')" and x: "room_clients (roomObjs w' ! r) k = Some x"
      from E r x consider "k = clientId" "x = c"
        | "r < length (roomObjs w)" "room_clients (roomObjs w ! r) k = Some x" by blast
      then show "client_id (clientObjs w' ! x) = k"
      proof cases
        case 1
        then show ?thesis using idc by simp
      next
        case 2
        then have "x < length (clientObjs w)" using wf unfolding wellFormed_def by blast
        moreover have "client_id (clientObjs w ! x) = k" using ky 2 unfolding keyed_def by blast
        ultimately show ?thesis using ids by simp
      qed
    qed
    then show ?thesis
      using i I wf' on nx cl ids idc by (auto simp: co)
  next
    case (Some c0)
    with S obtain team where c: "c = c0"
      and co: "clientObjs w' = (clientObjs w)[c0 := (clientObjs w ! c0)
             \<lparr>client_conn := Some conn, client_team := team,
              client_state := sjson_Set (Result_Raw (gjson_Get packet [''clientState'']))
                                ''clientId'' (of_uint64 clientId),
              client_lastActivity := now\<rparr>]"
      by auto
    from Some obtain r0 where r0: "rooms (server w) (Result_String (gjson_Get packet [''roomId''])) = Some r0"
      "room_clients (roomObjs w ! r0) clientId = Some c0"
      by (auto split: option.splits)
    have r0l: "r0 < length (roomObjs w)" using wf r0 unfolding wellFormed_def by blast
    then have c0l: "c0 < length (clientObjs w)" using wf r0 unfolding wellFormed_def by blast
    have old: "client_id (clientObjs w ! c0) = clientId" using ky r0 r0l unfolding keyed_def by blast
    have ids: "\<forall>i<length (clientObjs w). client_id (clientObjs w' ! i) = client_id (clientObjs w ! i)"
      using c0l by (auto simp: co nth_list_update)
    have idc: "client_id (clientObjs w' ! c) = clientId" using ids c0l old c by simp
    have "keyed w'"
      unfolding keyed_def
    proof (intro allI impI)
      fix r k x
      assume r: "r < length (roomObjs w')" and x: "room_clients (roomObjs w' ! r) k = Some x"
      from E r x consider "k = clientId" "x = c"
        | "r < length (roomObjs w)" "room_clients (roomObjs w ! r) k = Some x" by blast
      then show "client_id (clientObjs w' ! x) = k"
      proof cases
        case 1
        then show ?thesis using idc by simp
      next
        case 2
        then have "x < length (clientObjs w)" using wf unfolding wellFormed_def by blast
        moreover have "client_id (clientObjs w ! x) = k" using ky 2 unfolding keyed_def by blast
        ultimately show ?thesis using ids by simp
      qed
    qed
    then show ?thesis
      using i I wf' on nx cl ids idc by (auto simp: co)
  qed
qed

lemma handshakes_identities:
  "wellFormed w \<Longrightarrow> keyed w \<Longrightarrow> handshakes hs w = Some (cs, w') \<Longrightarrow>
     wellFormed w' \<and> keyed w' \<and>
     length (clientObjs w) \<le> length (clientObjs w') \<and>
     (\<forall>i<length (clientObjs w). client_id (clientObjs w' ! i) = client_id (clientObjs w ! i)) \<and>
     (\<forall>k. onlineClients (server w) k \<noteq> None \<longrightarrow> onlineClients (server w') k \<noteq> None) \<and>
     distinct (identities (cs, w')) \<and>
     (\<forall>k\<in>set (identities (cs, w')). onlineClients (server w) k = None) \<and>
     (nextClientId (server w) \<noteq> 0 \<longrightarrow>
      (\<forall>h\<in>set hs. Result_Uint (gjson_Get (fst (snd h)) [''clientId'']) = 0) \<longrightarrow>
      (\<forall>k\<in>set (identities (cs, w')). k \<noteq> 0))"
proof (induction hs arbitrary: w cs)
  case Nil
  then show ?case by (simp add: identities_def)
next
  case (Cons h hs)
  obtain now packet conn where h: "h = (now, packet, conn)" by (cases h) auto
  from Cons.prems(3) obtain c w1 cs1 where
    f: "findOrCreateClient now packet conn w = Some (c, w1)"
    and r: "handshakes hs w1 = Some (cs1, w')"
    and cs: "cs = c # cs1"
    by (auto simp: h split: option.splits)
  from findOrCreateClient_identity [OF Cons.prems(1,2) f] obtain k s where
    k: "onlineClients (server w) k = None"
      "onlineClients (server w1) = (onlineClients (server w))(k \<mapsto> c)"
      "client_id (clientObjs w1 ! c) = k"
      "Result_Uint (gjson_Get packet [''clientId'']) = 0 \<longrightarrow> nextClientId (server w) \<noteq> 0 \<longrightarrow> k \<noteq> 0"
      "nextClientId (server w) \<noteq> 0 \<longrightarrow> nextClientId (server w1) \<noteq> 0"
    and w1: "wellFormed w1" "keyed w1" "c < length (clientObjs w1)"
      "length (clientObjs w) \<le> length (clientObjs w1)"
      "\<forall>i<length (clientObjs w). client_id (clientObjs w1 ! i) = client_id (clientObjs w ! i)"
    by blast
  have I: "wellFormed w'" "keyed w'"
    "length (clientObjs w1) \<le> length (clientObjs w')"
    "\<forall>i<length (clientObjs w1). client_id (clientObjs w' ! i) = client_id (clientObjs w1 ! i)"
    "\<forall>x. onlineClients (server w1) x \<noteq> None \<longrightarrow> onlineClients (server w') x \<noteq> None"
    "distinct (identities (cs1, w'))"
    "\<forall>x\<in>set (identities (cs1, w')). onlineClients (server w1) x = None"
    "nextClientId (server w1) \<noteq> 0 \<longrightarrow>
      (\<forall>h\<in>set hs. Result_Uint (gjson_Get (fst (snd h)) [''clientId'']) = 0) \<longrightarrow>
      (\<forall>x\<in>set (identities (cs1, w')). x \<noteq> 0)"
    using Cons.IH [OF w1(1,2) r] by blast+
  have ck: "client_id (clientObjs w' ! c) = k" using I(4) w1(3) k(3) by simp
  have ids: "identities (cs, w') = k # identities (cs1, w')"
    by (simp add: identities_def cs ck)
  have notk: "k \<notin> set (identities (cs1, w'))"
    using I(7) k(2) by auto
  have fresh: "\<forall>x\<in>set (identities (cs1, w')). onlineClients (server w) x = None"
    using I(7) k(2) by (auto split: if_splits)
  show ?case
  proof (intro conjI)
    show "wellFormed w'" "keyed w'" using I(1,2) by simp_all
    show "length (clientObjs w) \<le> length (clientObjs w')" using I(3) w1(4) by linarith
    show "\<forall>i<length (clientObjs w). client_id (clientObjs w' ! i) = client_id (clientObjs w ! i)"
    proof (intro allI impI)
      fix i assume i: "i < length (clientObjs w)"
      then have "i < length (clientObjs w1)" using w1(4) by linarith
      then have "client_id (clientObjs w' ! i) = client_id (clientObjs w1 ! i)" using I(4) by blast
      then show "client_id (clientObjs w' ! i) = client_id (clientObjs w ! i)"
        using w1(5) i by simp
    qed
    show "\<forall>x. onlineClients (server w) x \<noteq> None \<longrightarrow> onlineClients (server w') x \<noteq> None"
    proof (intro allI impI)
      fix x assume "onlineClients (server w) x \<noteq> None"
      then have "onlineClients (server w1) x \<noteq> None" by (simp add: k(2))
      then show "onlineClients (server w') x \<noteq> None" using I(5) by blast
    qed
    show "distinct (identities (cs, w'))" using I(6) notk by (simp add: ids)
    show "\<forall>x\<in>set (identities (cs, w')). onlineClients (server w) x = None"
      using fresh k(1) by (simp add: ids)
    show "nextClientId (server w) \<noteq> 0 \<longrightarrow>
      (\<forall>h\<in>set (h # hs). Result_Uint (gjson_Get (fst (snd h)) [''clientId'']) = 0) \<longrightarrow>
      (\<forall>k\<in>set (identities (cs, w')). k \<noteq> 0)"
    proof (intro impI)
      assume n: "nextClientId (server w) \<noteq> 0"
        and z: "\<forall>h\<in>set (h # hs). Result_Uint (gjson_Get (fst (snd h)) [''clientId'']) = 0"
      have "Result_Uint (gjson_Get packet [''clientId'']) = 0" using z by (simp add: h)
      then have k0: "k \<noteq> 0" using k(4) n by blast
      have "nextClientId (server w1) \<noteq> 0" using k(5) n by blast
      moreover have "\<forall>h\<in>set hs. Result_Uint (gjson_Get (fst (snd h)) [''clientId'']) = 0"
        using z by simp
      ultimately have "\<forall>x\<in>set (identities (cs1, w')). x \<noteq> 0" using I(8) by blast
      then show "\<forall>k\<in>set (identities (cs, w')). k \<noteq> 0" using k0 by (simp add: ids)
    qed
  qed
qed

lemma free_identity:
  fixes online :: "u64 \<rightharpoonup> cref"
  assumes "card (dom online) < 2 ^ 64 - 1"
  shows "\<exists>f. f \<noteq> 0 \<and> online f = None"
proof (rule ccontr)
  assume "\<not> (\<exists>f. f \<noteq> 0 \<and> online f = None)"
  then have "UNIV - {0} \<subseteq> dom online" by auto
  then have "card (UNIV - {0 :: u64}) \<le> card (dom online)"
    by (intro card_mono) simp_all
  moreover have "card (UNIV - {0 :: u64}) = 2 ^ 64 - 1"
    by (simp add: card_Diff_singleton card_word)
  ultimately show False using assms by simp
qed

lemma handshakes_return:
  "wellFormed w \<Longrightarrow> keyed w \<Longrightarrow> card (dom (onlineClients (server w))) + length hs < 2 ^ 64 \<Longrightarrow>
     \<exists>r. handshakes hs w = Some r"
proof (induction hs arbitrary: w)
  case Nil
  then show ?case by simp
next
  case (Cons h hs)
  obtain now packet conn where h: "h = (now, packet, conn)" by (cases h) auto
  have "card (dom (onlineClients (server w))) < 2 ^ 64 - 1" using Cons.prems(3) by simp
  then obtain f where "f \<noteq> 0" "onlineClients (server w) f = None"
    using free_identity by blast
  then obtain c w1 where f: "findOrCreateClient now packet conn w = Some (c, w1)"
    using findOrCreateClient_returns by blast
  from findOrCreateClient_identity [OF Cons.prems(1,2) f] obtain k s where
    k: "onlineClients (server w) k = None"
      "onlineClients (server w1) = (onlineClients (server w))(k \<mapsto> c)"
    and w1: "wellFormed w1" "keyed w1"
    by blast
  have "card (dom (onlineClients (server w1))) = Suc (card (dom (onlineClients (server w))))"
    using k by (simp add: domIff)
  then obtain r where "handshakes hs w1 = Some r"
    using Cons.IH [OF w1] Cons.prems(3) by auto
  then show ?case using f by (cases r) (simp add: h)
qed

text \<open>
  When no handshake brings an identity of its own, the identities handed out are the
  successive values of the counter, and the counter has advanced by their number.
\<close>

lemma fresh_identity_from_counter:
  assumes "Result_Uint (gjson_Get packet [''clientId'']) = 0"
    and "nextClientId s = of_nat n" and "Suc n < 2 ^ 64"
    and "\<forall>k. onlineClients s k \<noteq> None \<longrightarrow> unat k < n"
  shows "findOrCreateClient_id packet s = Some (of_nat n, s\<lparr>nextClientId := of_nat (Suc n)\<rparr>)"
proof -
  have u: "unat (of_nat n :: u64) = n" using assms(3) by (intro of_nat_inverse) simp_all
  then have free: "onlineClients s (of_nat n) = None" using assms(4) by fastforce
  have "unat (of_nat (Suc n) :: u64) = Suc n" using assms(3) by (intro of_nat_inverse) simp_all
  then have "(of_nat (Suc n) :: u64) \<noteq> 0" by (metis nat.distinct(1) unat_0)
  then have "(of_nat n :: u64) + 1 \<noteq> 0" by (simp add: add.commute)
  then have "incrementNextClientId (of_nat n) = of_nat (Suc n)"
    by (simp add: incrementNextClientId_def add.commute)
  then show ?thesis
    using assms(1,2) free by (simp add: findOrCreateClient_id_def findOrCreateClient_loop.simps)
qed

lemma handshakes_count:
  "wellFormed w \<Longrightarrow> keyed w \<Longrightarrow> nextClientId (server w) = of_nat n \<Longrightarrow>
   \<forall>k. onlineClients (server w) k \<noteq> None \<longrightarrow> unat k < n \<Longrightarrow>
   n + length hs < 2 ^ 64 \<Longrightarrow>
   \<forall>h\<in>set hs. Result_Uint (gjson_Get (fst (snd h)) [''clientId'']) = 0 \<Longrightarrow>
   \<exists>cs w'. handshakes hs w = Some (cs, w') \<and>
      nextClientId (server w') = of_nat (n + length hs) \<and>
      identities (cs, w') = map of_nat [n..<n + length hs]"
proof (induction hs arbitrary: w n)
  case Nil
  then show ?case by (simp add: identities_def)
next
  case (Cons h hs)
  obtain now packet conn where h: "h = (now, packet, conn)" by (cases h) auto
  have z: "Result_Uint (gjson_Get packet [''clientId'']) = 0" using Cons.prems(6) by (simp add: h)
  have n: "Suc n < 2 ^ 64" using Cons.prems(5) by simp
  note F = fresh_identity_from_counter [OF z Cons.prems(3) n Cons.prems(4)]
  then obtain c w1 where f: "findOrCreateClient now packet conn w = Some (c, w1)"
    by (cases "findOrCreateClient_session now packet conn (of_nat n)
                 (w\<lparr>server := (server w)\<lparr>nextClientId := of_nat (Suc n)\<rparr>\<rparr>)")
       (simp add: findOrCreateClient_def del: of_nat_Suc)
  from findOrCreateClient_identity [OF Cons.prems(1,2) f] F obtain
    k: "onlineClients (server w1) = (onlineClients (server w))(of_nat n \<mapsto> c)"
      "client_id (clientObjs w1 ! c) = of_nat n"
      "nextClientId (server w1) = of_nat (Suc n)"
    and w1: "wellFormed w1" "keyed w1" "c < length (clientObjs w1)"
    by auto
  have u: "unat (of_nat n :: u64) = n" using n by (intro of_nat_inverse) simp_all
  have on1: "\<forall>k. onlineClients (server w1) k \<noteq> None \<longrightarrow> unat k < Suc n"
    using Cons.prems(4) u by (auto simp: k(1) less_Suc_eq)
  have len: "Suc n + length hs < 2 ^ 64" using Cons.prems(5) by simp
  have rest: "\<forall>h\<in>set hs. Result_Uint (gjson_Get (fst (snd h)) [''clientId'']) = 0"
    using Cons.prems(6) by simp
  from Cons.IH [OF w1(1,2) k(3) on1 len rest] obtain cs1 w' where
    r: "handshakes hs w1 = Some (cs1, w')"
      "nextClientId (server w') = of_nat (Suc n + length hs)"
      "identities (cs1, w') = map of_nat [Suc n..<Suc n + length hs]"
    by blast
  have "client_id (clientObjs w' ! c) = client_id (clientObjs w1 ! c)"
    using handshakes_identities [OF w1(1,2) r(1)] w1(3) by blast
  then have ids: "identities (c # cs1, w') = of_nat n # map of_nat [Suc n..<Suc n + length hs]"
    using r(3) k(2) by (simp add: identities_def)
  have "[n..<n + length (h # hs)] = n # [Suc n..<Suc n + length hs]"
    by (simp add: upt_rec)
  then show ?case
    using f r(1,2) ids by (simp add: h)
qed

text \<open>The states at start-up and the concrete worlds satisfy the invariants.\<close>

lemma first_handshake:
  "findOrCreateClient 100 (Some handshake_r1) 1 (main_init None) = Some (0, world_one_online)"
  by (simp add: eval_defs handshake_r1_def world_one_online_def)

lemma startup_wellFormed: "wellFormed (parseStats (main_init f0)) \<and> keyed (parseStats (main_init f0))"
  by (cases f0) (simp_all add: wellFormed_def keyed_def parseStats_def main_init_def logLine_def NewServer_def)

lemma world_one_online_invariants: "wellFormed world_one_online \<and> keyed world_one_online"
  by (auto simp: wellFormed_def keyed_def world_one_online_def split: if_splits)

lemma counter_orbit_step:
  assumes "online next \<noteq> None"
    and "fst r = (incrementNextClientId ^^ k) (incrementNextClientId next)"
    and "snd r = (incrementNextClientId ^^ Suc k) (incrementNextClientId next)"
    and "\<forall>j<k. online ((incrementNextClientId ^^ j) (incrementNextClientId next)) \<noteq> None"
  shows "fst r = (incrementNextClientId ^^ Suc k) next \<and>
         snd r = (incrementNextClientId ^^ Suc (Suc k)) next \<and>
         (\<forall>j<Suc k. online ((incrementNextClientId ^^ j) next) \<noteq> None)"
proof (intro conjI allI impI)
  show "fst r = (incrementNextClientId ^^ Suc k) next"
    using assms(2) by (simp only: funpow_Suc_right o_apply)
  show "snd r = (incrementNextClientId ^^ Suc (Suc k)) next"
    using assms(3) by (simp only: funpow_Suc_right o_apply)
  fix j assume j: "j < Suc k"
  show "online ((incrementNextClientId ^^ j) next) \<noteq> None"
  proof (cases j)
    case 0
    then show ?thesis using assms(1) by simp
  next
    case (Suc i)
    then have "i < k" using j by simp
    then have "online ((incrementNextClientId ^^ i) (incrementNextClientId next)) \<noteq> None"
      using assms(4) by blast
    then show ?thesis unfolding Suc by (simp only: funpow_Suc_right o_apply not_False_eq_True)
  qed
qed

lemma counterOrbit_0: "counterOrbit online next (next, incrementNextClientId next)"
  unfolding counterOrbit_def by (rule exI [of _ 0]) simp

lemma counterOrbit_Suc:
  "online next \<noteq> None \<Longrightarrow> counterOrbit online (incrementNextClientId next) r \<Longrightarrow>
   counterOrbit online next r"
  unfolding counterOrbit_def
  using counter_orbit_step [of online "next" r] by (elim exE conjE, intro exI) blast

lemma loop_from_counter:
  assumes "findOrCreateClient_loop online clientId next = Some r"
  shows "(online clientId = None \<longrightarrow> r = (clientId, next)) \<and>
         (online clientId \<noteq> None \<longrightarrow> counterOrbit online next r)"
proof -
  define P where "P = (\<lambda>(online :: u64 \<rightharpoonup> cref) clientId (next :: u64) r.
     (online clientId = None \<longrightarrow> r = (clientId, next)) \<and>
     (online clientId \<noteq> None \<longrightarrow> counterOrbit online next r))"
  have "P online clientId next r"
  proof (rule findOrCreateClient_loop.raw_induct [where P = P, OF _ assms])
    fix loop and online :: "u64 \<rightharpoonup> cref" and clientId "next" r
    assume IH: "\<And>online clientId next r. loop online clientId next = Some r \<Longrightarrow> P online clientId next r"
      and eq: "(if online clientId = None then Some (clientId, next)
                else loop online next (incrementNextClientId next)) = Some r"
    show "P online clientId next r"
    proof (cases "online clientId = None")
      case True
      then have "r = (clientId, next)" using eq by simp
      then show ?thesis using True by (simp add: P_def)
    next
      case False
      then have "loop online next (incrementNextClientId next) = Some r"
        using eq by (simp only: if_False)
      from IH [OF this] have I: "P online next (incrementNextClientId next) r" .
      have "counterOrbit online next r"
      proof (cases "online next = None")
        case True
        then have "r = (next, incrementNextClientId next)" using I by (simp add: P_def)
        then show ?thesis by (simp only: counterOrbit_0)
      next
        case busy: False
        then have "counterOrbit online (incrementNextClientId next) r" using I by (simp add: P_def)
        then show ?thesis using busy by (rule counterOrbit_Suc [rotated])
      qed
      then show ?thesis using False unfolding P_def by blast
    qed
  qed
  then show ?thesis by (simp add: P_def)
qed

lemma findOrCreateClient_id_resolved:
  assumes "findOrCreateClient_id packet s = Some (clientId, s')"
  shows "if Result_Uint (gjson_Get packet [''clientId'']) \<noteq> 0 \<and>
            onlineClients s (Result_Uint (gjson_Get packet [''clientId''])) = None
         then clientId = Result_Uint (gjson_Get packet [''clientId'']) \<and>
              nextClientId s' = nextClientId s
         else counterOrbit (onlineClients s) (nextClientId s) (clientId, nextClientId s')"
proof (cases "Result_Uint (gjson_Get packet [''clientId'']) = 0")
  case True
  then obtain r where r: "findOrCreateClient_loop (onlineClients s) (nextClientId s)
        (incrementNextClientId (nextClientId s)) = Some r"
    and res: "r = (clientId, nextClientId s')"
    using assms by (auto simp: findOrCreateClient_id_def Let_def split: option.splits)
  note L = loop_from_counter [OF r]
  have "counterOrbit (onlineClients s) (nextClientId s) r"
  proof (cases "onlineClients s (nextClientId s) = None")
    case free: True
    then have "r = (nextClientId s, incrementNextClientId (nextClientId s))" using L by blast
    then show ?thesis by (simp only: counterOrbit_0)
  next
    case busy: False
    then have "counterOrbit (onlineClients s) (incrementNextClientId (nextClientId s)) r"
      using L by blast
    then show ?thesis using busy by (rule counterOrbit_Suc [rotated])
  qed
  then show ?thesis using True res by simp
next
  case False
  then obtain r where r: "findOrCreateClient_loop (onlineClients s)
        (Result_Uint (gjson_Get packet [''clientId''])) (nextClientId s) = Some r"
    and res: "r = (clientId, nextClientId s')"
    using assms by (auto simp: findOrCreateClient_id_def Let_def split: option.splits)
  note L = loop_from_counter [OF r]
  show ?thesis
  proof (cases "onlineClients s (Result_Uint (gjson_Get packet [''clientId''])) = None")
    case True
    then have "r = (Result_Uint (gjson_Get packet [''clientId'']), nextClientId s)"
      using L by blast
    then show ?thesis using True False res by simp
  next
    case busy: False
    then have "counterOrbit (onlineClients s) (nextClientId s) r" using L by blast
    then have "counterOrbit (onlineClients s) (nextClientId s) (clientId, nextClientId s')"
      unfolding res .
    then show ?thesis using busy by (simp only: simp_thms if_False)
  qed
qed

text \<open>
  Claim C1, after a start without \<open>stats.json\<close>. \<open>parseStats\<close> leaves the counter
  at 0, and the first handshake that asks for a new identity (\<open>clientId\<close> 0) is given
  identity 0: the counter is handed out before the skip of zero looks at it.
  (\<open>findOrCreateClient_id_result\<close> shows that from a counter other than 0 the identity
  and the counter are never 0.)
\<close>

theorem identity_zero_after_missing_stats:
  "nextClientId (server (parseStats (main_init None))) = 0 \<and>
   map_option fst (findOrCreateClient_id (Some handshake_r1) (server (parseStats (main_init None))))
     = Some 0 \<and>
   map_option (\<lambda>(c, w). client_id (clientObjs w ! c))
     (findOrCreateClient 100 (Some handshake_r1) 1 (parseStats (main_init None))) = Some 0"
  by (simp add: eval_defs handshake_r1_def)

text \<open>
  Claim C2, after a start without \<open>stats.json\<close>. Two handshakes without an identity
  of their own, one after the other, are given the identities 0 and 1: distinct, but the
  first is zero. (The rest of the claim holds: by \<open>handshakes_identities\<close> the
  identities of any run of handshakes are pairwise distinct, none of them was online before,
  and none is zero when the counter was not zero at the start; by \<open>handshakes_return\<close>
  the run returns as long as identities are left.)
\<close>

theorem handshakes_after_missing_stats:
  "map_option (\<lambda>(cs, w). map (\<lambda>c. client_id (clientObjs w ! c)) cs)
     (handshakes [(100, Some handshake_r1, 1), (101, Some handshake_bare, 2)]
        (parseStats (main_init None))) = Some [0, 1]"
  by (simp add: eval_defs handshake_r1_def handshake_bare_def)

text \<open>
  Claim C3 fails as it is stated: a handshake that carries identity 1 for room \<open>r1\<close>,
  where the session of identity 1 exists and is still online, is given identity 2 and a new
  session; the session of identity 1 is left as it was.
\<close>

theorem claimed_online_identity_gets_new_session:
  "Result_Uint (gjson_Get (Some handshake_claim1) [''clientId'']) = 1 \<and>
   rooms (server world_one_online) (Result_String (gjson_Get (Some handshake_claim1) [''roomId''])) = Some 0 \<and>
   room_clients (roomObjs world_one_online ! 0) 1 = Some 0 \<and>
   findOrCreateClient 200 (Some handshake_claim1) 2 world_one_online \<noteq> None \<and>
   fst (the (findOrCreateClient 200 (Some handshake_claim1) 2 world_one_online)) = 1 \<and>
   clientObjs (snd (the (findOrCreateClient 200 (Some handshake_claim1) 2 world_one_online))) ! 0
     = clientObjs world_one_online ! 0 \<and>
   client_id (clientObjs (snd (the (findOrCreateClient 200 (Some handshake_claim1) 2 world_one_online))) ! 1) = 2"
  by (simp add: eval_defs handshake_claim1_def world_one_online_def)

text \<open>
  Claim C3, amended. While some non-zero identity is not online, \<open>findOrCreateClient\<close>
  returns, for every handshake. Let \<open>clientId\<close> be the identity it resolves: the one the
  handshake carries if that is not zero and not online, and then the counter is left as it
  was; otherwise one taken from the counter, the first value of the counter's sequence that
  is not online, and the counter is left one step past it. The resolved identity is not
  online before the call. If the resolved room already holds a session under \<open>clientId\<close>,
  that session object is updated in place (its connection, team, state and last-activity
  timestamp are replaced, its identity is kept) and it is the session returned; otherwise
  a new session object is allocated. In both cases the session returned is registered under
  \<open>clientId\<close> in the room's client mapping and in the online mapping, and its team is
  the one registered in the room under the team identifier of the handshake.
\<close>

theorem findOrCreateClient_resolved_session:
  assumes "wellFormed w" and "onlineClients (server w) f = None" and "f \<noteq> 0"
  shows "\<exists>c w' clientId room team.
     findOrCreateClient now packet conn w = Some (c, w') \<and>
     (if Result_Uint (gjson_Get packet [''clientId'']) \<noteq> 0 \<and>
         onlineClients (server w) (Result_Uint (gjson_Get packet [''clientId''])) = None
      then clientId = Result_Uint (gjson_Get packet [''clientId'']) \<and>
           nextClientId (server w') = nextClientId (server w)
      else counterOrbit (onlineClients (server w)) (nextClientId (server w))
             (clientId, nextClientId (server w'))) \<and>
     onlineClients (server w) clientId = None \<and>
     rooms (server w') (Result_String (gjson_Get packet [''roomId''])) = Some room \<and>
     room_teams (roomObjs w' ! room)
        (Result_String (gjson_Get packet [''clientState'', ''teamId''])) = Some team \<and>
     room_clients (roomObjs w' ! room) clientId = Some c \<and>
     onlineClients (server w') clientId = Some c \<and>
     (case (case rooms (server w) (Result_String (gjson_Get packet [''roomId''])) of
              None \<Rightarrow> None
            | Some r \<Rightarrow> room_clients (roomObjs w ! r) clientId) of
        Some c0 \<Rightarrow>
          c = c0 \<and>
          clientObjs w' = (clientObjs w)[c0 := (clientObjs w ! c0)
             \<lparr>client_conn := Some conn, client_team := team,
              client_state := sjson_Set (Result_Raw (gjson_Get packet [''clientState'']))
                                ''clientId'' (of_uint64 clientId),
              client_lastActivity := now\<rparr>] \<and>
          client_id (clientObjs w' ! c0) = client_id (clientObjs w ! c0)
      | None \<Rightarrow>
          c = length (clientObjs w) \<and>
          clientObjs w' = clientObjs w @
             [\<lparr>client_id = clientId, client_conn = Some conn, client_room = room,
               client_team = team,
               client_state = sjson_Set (Result_Raw (gjson_Get packet [''clientState'']))
                                ''clientId'' (of_uint64 clientId),
               client_lastActivity = now, client_mu = False\<rparr>])"
proof -
  from findOrCreateClient_returns [OF assms(2,3)] obtain c w' where
    ret: "findOrCreateClient now packet conn w = Some (c, w')" by blast
  then obtain clientId s where
    i: "findOrCreateClient_id packet (server w) = Some (clientId, s)"
    and e: "findOrCreateClient_session now packet conn clientId (w\<lparr>server := s\<rparr>) = (c, w')"
    by (auto simp: findOrCreateClient_def split: option.splits)
  from findOrCreateClient_id_result [OF i] obtain n where s: "s = (server w)\<lparr>nextClientId := n\<rparr>"
    and free: "onlineClients (server w) clientId = None"
    by blast
  have wf0: "wellFormed (w\<lparr>server := s\<rparr>)" using assms(1) by (simp add: wellFormed_def s)
  have eqs: "roomObjs (w\<lparr>server := s\<rparr>) = roomObjs w"
    "clientObjs (w\<lparr>server := s\<rparr>) = clientObjs w"
    "rooms (server (w\<lparr>server := s\<rparr>)) = rooms (server w)"
    "nextClientId (server (w\<lparr>server := s\<rparr>)) = nextClientId s"
    by (simp_all add: s)
  from findOrCreateClient_session_result [OF wf0 e, unfolded eqs] obtain room team where
    r: "rooms (server w') (Result_String (gjson_Get packet [''roomId''])) = Some room"
      "room_teams (roomObjs w' ! room)
        (Result_String (gjson_Get packet [''clientState'', ''teamId''])) = Some team"
      "room_clients (roomObjs w' ! room) clientId = Some c"
      "onlineClients (server w') clientId = Some c"
    and nx: "nextClientId (server w') = nextClientId s"
    and k: "(case (case rooms (server w) (Result_String (gjson_Get packet [''roomId''])) of
              None \<Rightarrow> None
            | Some r \<Rightarrow> room_clients (roomObjs w ! r) clientId) of
        Some c0 \<Rightarrow>
          c = c0 \<and>
          clientObjs w' = (clientObjs w)[c0 := (clientObjs w ! c0)
             \<lparr>client_conn := Some conn, client_team := team,
              client_state := sjson_Set (Result_Raw (gjson_Get packet [''clientState'']))
                                ''clientId'' (of_uint64 clientId),
              client_lastActivity := now\<rparr>]
      | None \<Rightarrow>
          c = length (clientObjs w) \<and>
          clientObjs w' = clientObjs w @
             [\<lparr>client_id = clientId, client_conn = Some conn, client_room = room,
               client_team = team,
               client_state = sjson_Set (Result_Raw (gjson_Get packet [''clientState'']))
                                ''clientId'' (of_uint64 clientId),
               client_lastActivity = now, client_mu = False\<rparr>])"
    by (auto simp: s)
  have res: "if Result_Uint (gjson_Get packet [''clientId'']) \<noteq> 0 \<and>
         onlineClients (server w) (Result_Uint (gjson_Get packet [''clientId''])) = None
      then clientId = Result_Uint (gjson_Get packet [''clientId'']) \<and>
           nextClientId (server w') = nextClientId (server w)
      else counterOrbit (onlineClients (server w)) (nextClientId (server w))
             (clientId, nextClientId (server w'))"
    using findOrCreateClient_id_resolved [OF i] unfolding nx .
  have idp: "client_id (clientObjs w' ! c0) = client_id (clientObjs w ! c0)"
    if "rooms (server w) (Result_String (gjson_Get packet [''roomId''])) = Some r0"
       "room_clients (roomObjs w ! r0) clientId = Some c0" for r0 c0
  proof -
    have "r0 < length (roomObjs w)" using assms(1) that(1) by (auto simp: wellFormed_def)
    then have "c0 < length (clientObjs w)" using assms(1) that(2) by (auto simp: wellFormed_def)
    then show ?thesis using k that by simp
  qed
  have last: "(case (case rooms (server w) (Result_String (gjson_Get packet [''roomId''])) of
              None \<Rightarrow> None
            | Some r \<Rightarrow> room_clients (roomObjs w ! r) clientId) of
        Some c0 \<Rightarrow>
          c = c0 \<and>
          clientObjs w' = (clientObjs w)[c0 := (clientObjs w ! c0)
             \<lparr>client_conn := Some conn, client_team := team,
              client_state := sjson_Set (Result_Raw (gjson_Get packet [''clientState'']))
                                ''clientId'' (of_uint64 clientId),
              client_lastActivity := now\<rparr>] \<and>
          client_id (clientObjs w' ! c0) = client_id (clientObjs w ! c0)
      | None \<Rightarrow>
          c = length (clientObjs w) \<and>
          clientObjs w' = clientObjs w @
             [\<lparr>client_id = clientId, client_conn = Some conn, client_room = room,
               client_team = team,
               client_state = sjson_Set (Result_Raw (gjson_Get packet [''clientState'']))
                                ''clientId'' (of_uint64 clientId),
               client_lastActivity = now, client_mu = False\<rparr>])"
    using k idp by (auto split: option.splits)
  show ?thesis
    apply (rule exI [of _ c], rule exI [of _ w'], rule exI [of _ clientId],
        rule exI [of _ room], rule exI [of _ team])
    using ret res free r last by (intro conjI) assumption+
qed

text \<open>
  The amended claim at a reconnect: the session of identity 1 is offline when the handshake
  that carries identity 1 arrives; the call returns, the session is updated in place and
  the counter stays at 2.
\<close>

theorem findOrCreateClient_resolved_session_witness:
  "wellFormed world_one_offline \<and>
   onlineClients (server world_one_offline) 1 = None \<and> (1 :: u64) \<noteq> 0 \<and>
   findOrCreateClient 200 (Some handshake_claim1) 2 world_one_offline \<noteq> None \<and>
   fst (the (findOrCreateClient 200 (Some handshake_claim1) 2 world_one_offline)) = 0 \<and>
   client_conn (clientObjs (snd (the (findOrCreateClient 200 (Some handshake_claim1) 2 world_one_offline))) ! 0) = Some 2 \<and>
   client_id (clientObjs (snd (the (findOrCreateClient 200 (Some handshake_claim1) 2 world_one_offline))) ! 0) = 1 \<and>
   onlineClients (server (snd (the (findOrCreateClient 200 (Some handshake_claim1) 2 world_one_offline)))) 1 = Some 0 \<and>
   nextClientId (server (snd (the (findOrCreateClient 200 (Some handshake_claim1) 2 world_one_offline)))) = 2"
proof -
  have h1: "wellFormed world_one_offline" by (rule wellFormed_world_one_offline)
  have h2: "onlineClients (server world_one_offline) 1 = None"
    by (simp add: world_one_offline_def world_one_online_def)
  have h3: "(1 :: u64) \<noteq> 0" by simp
  have h4: "Result_Uint (gjson_Get (Some handshake_claim1) [''clientId'']) = 1"
    "rooms (server world_one_offline) (Result_String (gjson_Get (Some handshake_claim1) [''roomId''])) = Some 0"
    "room_clients (roomObjs world_one_offline ! 0) 1 = Some 0"
    "client_id (clientObjs world_one_offline ! 0) = 1"
    "length (clientObjs world_one_offline) = 1"
    "nextClientId (server world_one_offline) = 2"
    by (simp_all add: eval_defs handshake_claim1_def world_one_offline_def world_one_online_def)
  show ?thesis
    using findOrCreateClient_resolved_session [OF h1 h2 h3, of 200 "Some handshake_claim1" 2]
      h1 h2 h4
    by auto
qed

text \<open>
  Claim C10. A handshake whose \<open>roomId\<close> member is absent or empty is accepted:
  \<open>findOrCreateClient\<close> returns a session (as long as some identity other than zero is
  free), and the session is a member of the room registered under the empty string, which
  is the room that was registered there before, or else a new room whose identifier is the
  empty string. Every handshake after it that omits the room identifier as well is placed
  in that same room, together with the first.
\<close>

theorem omitted_roomId_shared_room:
  assumes "wellFormed w" and "onlineClients (server w) f = None" and "f \<noteq> 0"
    and "omitsRoomId packet"
  shows "\<exists>c w1 room.
     findOrCreateClient now packet conn w = Some (c, w1) \<and>
     rooms (server w1) [] = Some room \<and>
     (\<exists>clientId. room_clients (roomObjs w1 ! room) clientId = Some c) \<and>
     (case rooms (server w) [] of
        Some r \<Rightarrow> room = r
      | None \<Rightarrow> room = length (roomObjs w) \<and> room_id (roomObjs w1 ! room) = []) \<and>
     (\<forall>hs cs w'. (\<forall>h\<in>set hs. omitsRoomId (fst (snd h))) \<longrightarrow> handshakes hs w1 = Some (cs, w')
        \<longrightarrow> rooms (server w') [] = Some room \<and>
            (\<forall>x\<in>set (c # cs). \<exists>clientId. room_clients (roomObjs w' ! room) clientId = Some x))"
proof -
  obtain c w1 where f: "findOrCreateClient now packet conn w = Some (c, w1)"
    using findOrCreateClient_returns [OF assms(2,3)] by blast
  note F = findOrCreateClient_frame [OF assms(1) f]
  have o: "Result_String (gjson_Get packet [''roomId'']) = []"
    using assms(4) by (rule omitsRoomId_String)
  from F obtain room clientId where
    room: "rooms (server w1) [] = Some room" "room < length (roomObjs w1)"
      "room_clients (roomObjs w1 ! room) clientId = Some c"
    by (auto simp: o)
  have wf1: "wellFormed w1" using F by simp
  have old: "case rooms (server w) [] of
        Some r \<Rightarrow> room = r
      | None \<Rightarrow> room = length (roomObjs w) \<and> room_id (roomObjs w1 ! room) = []"
  proof (cases "rooms (server w) []")
    case None
    then show ?thesis
      using findOrCreateClient_new_room_id [OF assms(1) f] room(1) by (simp add: o)
  next
    case (Some r)
    then show ?thesis using F room(1) by auto
  qed
  have later: "rooms (server w') [] = Some room \<and>
            (\<forall>x\<in>set (c # cs). \<exists>clientId. room_clients (roomObjs w' ! room) clientId = Some x)"
    if "\<forall>h\<in>set hs. omitsRoomId (fst (snd h))" "handshakes hs w1 = Some (cs, w')" for hs cs w'
  proof -
    note H = handshakes_frame [OF wf1 that(2)]
    have "rooms (server w') [] = Some room" using H room(1) by blast
    moreover have "room_clients (roomObjs w' ! room) clientId = Some c" using H room by blast
    moreover note handshakes_shared_room [OF wf1 room(1) that]
    ultimately show ?thesis by auto
  qed
  show ?thesis
    using f room old later by blast
qed

text \<open>The claim at the handshake \<open>{"type":"HANDSHAKE"}\<close> on a new server.\<close>

theorem omitted_roomId_shared_room_witness:
  "wellFormed (main_init None) \<and> onlineClients (server (main_init None)) 1 = None \<and>
   (1 :: u64) \<noteq> 0 \<and> omitsRoomId (Some handshake_bare) \<and>
   (\<exists>c w1 room. findOrCreateClient 100 (Some handshake_bare) 1 (main_init None) = Some (c, w1) \<and>
      rooms (server w1) [] = Some room \<and> room_id (roomObjs w1 ! room) = [] \<and>
      (\<exists>clientId. room_clients (roomObjs w1 ! room) clientId = Some c))"
proof -
  have h1: "wellFormed (main_init None)"
    by (simp add: wellFormed_def main_init_def NewServer_def)
  have h2: "onlineClients (server (main_init None)) 1 = None"
    by (simp add: main_init_def NewServer_def)
  have h3: "(1 :: u64) \<noteq> 0" by simp
  have h4: "omitsRoomId (Some handshake_bare)"
    by (simp add: omitsRoomId_def gjson_Get_def handshake_bare_def)
  have h5: "rooms (server (main_init None)) [] = None"
    by (simp add: main_init_def NewServer_def)
  have "\<exists>c w1 room. findOrCreateClient 100 (Some handshake_bare) 1 (main_init None) = Some (c, w1) \<and>
      rooms (server w1) [] = Some room \<and> room_id (roomObjs w1 ! room) = [] \<and>
      (\<exists>clientId. room_clients (roomObjs w1 ! room) clientId = Some c)"
    using omitted_roomId_shared_room [OF h1 h2 h3 h4, of 100 1]
    by (simp only: h5 option.case) blast
  then show ?thesis
    by (intro conjI h1 h2 h3 h4)
qed

section \<open>The idle-room sweeper\<close>





section \<open>The task of a connection\<close>

lemma digits_not_letter:
  "digits n \<noteq> CHR ''S'' # s" "digits n \<noteq> CHR ''H'' # s"
  using digits_hd [of n] digits_nonempty [of n]
  by (cases "digits n"; simp add: isDigit_def; fastforce)+

lemma itoa_not_letter: "itoa n \<noteq> ''STATS''" "itoa n \<noteq> ''HANDSHAKE''"
  using digits_not_letter by (auto simp: itoa_def)

lemma Result_String_not_string:
  assumes "\<And>t. j \<noteq> JString t"
  shows "Result_String (Some j) \<noteq> ''STATS'' \<and> Result_String (Some j) \<noteq> ''HANDSHAKE''"
  using assms itoa_not_letter by (cases j) auto

text \<open>
  Claim C7 fails as it is stated: the member \<open>uniquePlayers\<close> of the reply is the
  registry's identity counter, not the number of clients that were ever given an identity.
  On the new server, where no client was ever given one, the reply carries 1. After a
  handshake that claims identity 5, which is accepted as it is, one client holds an identity
  and the reply still carries 1: an accepted claim does not move the counter. After a
  handshake without an identity instead, one client holds an identity and the reply
  carries 2.
\<close>

theorem uniquePlayers_is_the_counter:
  "clientsEverAssigned (main_init None) = 0 \<and>
   handleConnection_body tracingMethods 7 (50, JSON stats_packet) (None, main_init None) =
     Some (None, (main_init None)\<lparr>sent :=
        [(7, Some (JObject
           [(''type'', JString ''STATS''), (''uniquePlayers'', JNumber 1),
            (''gamesCompleted'', JNumber 0), (''online'', JNumber 0)]))]\<rparr>) \<and>
   findOrCreateClient 10 (Some handshake_claim5) 3 (main_init None) \<noteq> None \<and>
   (let w1 = snd (the (findOrCreateClient 10 (Some handshake_claim5) 3 (main_init None)))
    in map client_id (clientObjs w1) = [5] \<and>
       clientsEverAssigned w1 = 1 \<and>
       handleConnection_body tracingMethods 7 (50, JSON stats_packet) (None, w1) =
         Some (None, w1\<lparr>sent := sent w1 @
            [(7, Some (JObject
               [(''type'', JString ''STATS''), (''uniquePlayers'', JNumber 1),
                (''gamesCompleted'', JNumber 0), (''online'', JNumber 1)]))]\<rparr>)) \<and>
   findOrCreateClient 10 (Some handshake_r1) 3 (main_init None) \<noteq> None \<and>
   (let w2 = snd (the (findOrCreateClient 10 (Some handshake_r1) 3 (main_init None)))
    in map client_id (clientObjs w2) = [1] \<and>
       clientsEverAssigned w2 = 1 \<and>
       handleConnection_body tracingMethods 7 (50, JSON stats_packet) (None, w2) =
         Some (None, w2\<lparr>sent := sent w2 @
            [(7, Some (JObject
               [(''type'', JString ''STATS''), (''uniquePlayers'', JNumber 2),
                (''gamesCompleted'', JNumber 0), (''online'', JNumber 1)]))]\<rparr>))"
  by (simp add: eval_defs clientsEverAssigned_def handshake_claim5_def handshake_r1_def
      stats_packet_def handleConnection_body_def Result_Exists_def statsReply_def
      of_int_go_def)

text \<open>
  Claim C7, amended. A payload whose \<open>type\<close> is \<open>STATS\<close> is answered whatever the
  state of the connection, before a handshake (\<open>client\<close> nil) or after: one reply is
  written to the connection, with the registry's identity counter (the member
  \<open>uniquePlayers\<close>: the next identity the counter would hand out), the games-completed
  counter and the size of the online mapping. The local variable \<open>client\<close> stays as it
  was and nothing else of the world changes: no session is created, the server is
  untouched.
\<close>

theorem stats_answered_without_change:
  assumes "gjson_Get (Some j) [''type''] = Some (JString ''STATS'')"
  shows "handleConnection_body m conn (now, JSON j) (client, w) =
     Some (client, w\<lparr>sent := sent w @
        [(conn, Some (JObject
           [(''type'', JString ''STATS''),
            (''uniquePlayers'', JNumber (uint (nextClientId (server w)))),
            (''gamesCompleted'', JNumber (uint (gamesCompleted (server w)))),
            (''online'', JNumber (int (card (dom (onlineClients (server w))))))]))]\<rparr>)"
  using assms
  by (simp add: handleConnection_body_def Result_Exists_def statsReply_def of_uint64_def
      of_int_go_def)

text \<open>The claim at \<open>{"type":"STATS"}\<close>, the first payload on a connection to a new server.\<close>

theorem stats_answered_without_change_witness:
  "gjson_Get (Some stats_packet) [''type''] = Some (JString ''STATS'') \<and>
   handleConnection_body tracingMethods 7 (50, JSON stats_packet) (None, main_init None) =
     Some (None, (main_init None)\<lparr>sent :=
        [(7, Some (JObject
           [(''type'', JString ''STATS''), (''uniquePlayers'', JNumber 1),
            (''gamesCompleted'', JNumber 0), (''online'', JNumber 0)]))]\<rparr>)"
proof -
  have h: "gjson_Get (Some stats_packet) [''type''] = Some (JString ''STATS'')"
    by (simp add: gjson_Get_def stats_packet_def)
  show ?thesis
    using stats_answered_without_change [OF h, of tracingMethods 7 50 None "main_init None"] h
    by (simp add: main_init_def NewServer_def)
qed

text \<open>
  Claim C6 fails as it is stated for a payload whose \<open>type\<close> member is there but is not
  a string. \<open>{"type":5}\<close> passes both checks (the second asks only whether the member
  exists), and after a handshake it is handed to \<open>Client.handlePacket\<close> like any other
  payload, not logged and dropped by the loop.
\<close>

theorem nonstring_type_reaches_handler:
  "\<not> stringTyped (JSON typed5_packet) \<and>
   handleConnection_body tracingMethods 1 (300, JSON typed5_packet) (Some 0, world_one_online) =
     Some (Some 0, handlePacket tracingMethods 0 (Some typed5_packet) world_one_online) \<and>
   logged (handlePacket tracingMethods 0 (Some typed5_packet) world_one_online) = [''handlePacket'']"
  by (simp add: handleConnection_body_def gjson_Get_def typed5_packet_def Result_Exists_def
      tracingMethods_def logLine_def world_one_online_def itoa_def digits.simps)

text \<open>
  Claim C6, amended. A payload that is not valid JSON, or that has no \<open>type\<close> member,
  is logged and dropped, and the read loop goes on with the next payload from the state it
  was in, before a handshake or after. A payload whose \<open>type\<close> member is not a string
  is read as text by the loop: before a handshake it is logged and dropped as a payload
  that is not a handshake, after a handshake it goes to the session's packet handler; the
  loop goes on in both cases.
\<close>

theorem malformed_payload_skipped:
  "(rejected packet \<longrightarrow>
      handleConnection_loop m conn ((now, packet) # inputs) (client, w) =
      handleConnection_loop m conn inputs
        (client, logLine (if gjson_Valid packet then ''Packet missing type''
                          else ''Invalid JSON packet'') w)) \<and>
   (\<not> rejected packet \<and> \<not> stringTyped packet \<longrightarrow>
      handleConnection_loop m conn ((now, packet) # inputs) (None, w) =
      handleConnection_loop m conn inputs (None, logLine ''Client must handshake first'' w) \<and>
      handleConnection_loop m conn ((now, packet) # inputs) (Some c, w) =
      handleConnection_loop m conn inputs (Some c, handlePacket m c (packet_text packet) w))"
proof (intro conjI impI)
  assume "rejected packet"
  then show "handleConnection_loop m conn ((now, packet) # inputs) (client, w) =
      handleConnection_loop m conn inputs
        (client, logLine (if gjson_Valid packet then ''Packet missing type''
                          else ''Invalid JSON packet'') w)"
    by (auto simp: rejected_def handleConnection_body_def)
next
  assume a: "\<not> rejected packet \<and> \<not> stringTyped packet"
  then obtain j v where p: "packet = JSON j" and v: "gjson_Get (Some j) [''type''] = Some v"
    and ns: "\<And>t. v \<noteq> JString t"
    by (cases packet) (auto simp: rejected_def Result_Exists_def split: option.splits json.splits)
  note S = Result_String_not_string [of v, OF ns]
  show "handleConnection_loop m conn ((now, packet) # inputs) (None, w) =
      handleConnection_loop m conn inputs (None, logLine ''Client must handshake first'' w)"
    using S by (simp add: p v handleConnection_body_def Result_Exists_def)
  show "handleConnection_loop m conn ((now, packet) # inputs) (Some c, w) =
      handleConnection_loop m conn inputs (Some c, handlePacket m c (packet_text packet) w)"
    using S by (simp add: p v handleConnection_body_def Result_Exists_def)
qed

text \<open>
  The amended claim at a connection that sends garbage and then \<open>{"type":"STATS"}\<close>,
  which is answered, and at one that sends \<open>{"type":5}\<close> before any handshake.
\<close>

theorem malformed_payload_skipped_witness:
  "rejected NotJSON \<and>
   handleConnection_loop tracingMethods 7 [(40, NotJSON), (50, JSON stats_packet)] (None, main_init None) =
     Some (None, (main_init None)\<lparr>sent :=
        [(7, Some (JObject
           [(''type'', JString ''STATS''), (''uniquePlayers'', JNumber 1),
            (''gamesCompleted'', JNumber 0), (''online'', JNumber 0)]))],
        logged := [''Invalid JSON packet'']\<rparr>) \<and>
   \<not> rejected (JSON typed5_packet) \<and> \<not> stringTyped (JSON typed5_packet) \<and>
   handleConnection_loop tracingMethods 7 [(40, JSON typed5_packet)] (None, main_init None) =
     Some (None, (main_init None)\<lparr>logged := [''Client must handshake first'']\<rparr>)"
proof -
  have h1: "rejected NotJSON" by (simp add: rejected_def)
  have h2: "\<not> rejected (JSON typed5_packet) \<and> \<not> stringTyped (JSON typed5_packet)"
    by (simp add: rejected_def gjson_Get_def typed5_packet_def Result_Exists_def)
  have s: "handleConnection_loop tracingMethods 7 [(50, JSON stats_packet)]
             (None, logLine ''Invalid JSON packet'' (main_init None)) =
     Some (None, (main_init None)\<lparr>sent :=
        [(7, Some (JObject
           [(''type'', JString ''STATS''), (''uniquePlayers'', JNumber 1),
            (''gamesCompleted'', JNumber 0), (''online'', JNumber 0)]))],
        logged := [''Invalid JSON packet'']\<rparr>)"
    by (simp add: handleConnection_body_def gjson_Get_def stats_packet_def Result_Exists_def
        statsReply_def of_uint64_def of_int_go_def logLine_def main_init_def NewServer_def)
  show ?thesis
    using malformed_payload_skipped [of NotJSON tracingMethods 7 40 "[(50, JSON stats_packet)]" None "main_init None"]
          malformed_payload_skipped [of "JSON typed5_packet" tracingMethods 7 40 "[]" _ "main_init None"]
          h1 h2 s
    by (simp add: logLine_def main_init_def)
qed

section \<open>The operator console\<close>

lemma isDigit_1: "isDigit CHR ''1''" by (simp add: isDigit_def)

lemma parse_1: "strconv_ParseUint ''1'' = Some 1"
  by (simp add: strconv_ParseUint_def isDigit_def)

lemma digits_1: "digits (Suc 0) = ''1''"
  by code_simp

lemma disable_faults_always:
  assumes "strconv_ParseUint word = Some clientId" "clientId \<noteq> 0"
    and "onlineClients (server w) clientId = Some c" "c < length (clientObjs w)"
  shows "processStdin_disable (''disable'' # word # rest) w = Inl UnlockOfUnlockedMutex"
  using assms
  by (simp add: processStdin_disable_def getClientID_def mu_Unlock_def logLine_def Let_def)

text \<open>
  Claim C9, at the console line \<open>disable 1\<close> while the session of identity 1 is online
  and nobody holds its mutex. The case \<open>"disable"\<close> calls \<open>client.mu.Unlock()\<close>
  where the case \<open>"message"\<close> calls \<open>client.mu.Lock()\<close>: it unlocks a mutex it does
  not hold, which is the runtime's fatal error, while \<open>message 1\<close> on the same world
  locks, logs, unlocks and starts its task. (\<open>disable_faults_always\<close>: the case faults
  for every online target, the mutex held by another task or not.)
\<close>

theorem disable_unlocks_unlocked_mutex:
  "onlineClients (server world_one_online) 1 = Some 0 \<and>
   \<not> client_mu (clientObjs world_one_online ! 0) \<and>
   processStdin_disable [''disable'', ''1''] world_one_online = Inl UnlockOfUnlockedMutex \<and>
   processStdin_message [''message'', ''1''] world_one_online =
     Inr (logLine ''[Server] SERVER_MESSAGE packet -> 1'' world_one_online,
          [SendServerMessage 0 []])"
  by (simp add: processStdin_disable_def processStdin_message_def getClientID_def parse_1
      mu_Unlock_def mu_Lock_def world_one_online_def getMessage_def logLine_def digits_1)

end
